theory Spec2Isabelle
  imports Complex_Main "HOL-Library.Sublist" "HOL-Library.Log_Nat"
    "HOL-Library.Code_Target_Nat"
begin

section \<open>The store behind \<open>database.js\<close>\<close>

text \<open>
  \<open>database.js\<close> talks to a relational store through the Prisma client. The two tables
  and the join table of the implicit many-to-many relation are modelled as lists of rows;
  identifiers come from sequences that only grow. The time stamps \<open>createdAt\<close> and
  \<open>updatedAt\<close> are left out: no operation in \<open>database.js\<close> reads them.
\<close>

text \<open>
  Modelled from the spec: the schema \<open>prisma/schema.prisma\<close> (section 3 of the
  specification): an author has an identifier, a name and an optional e-mail address and
  affiliation, with no uniqueness constraint beyond the identifier.
\<close>

record author_row =
  a_id :: nat
  a_name :: string
  a_email :: "string option"
  a_affiliation :: "string option"

text \<open>
  Modelled from the spec: the schema \<open>prisma/schema.prisma\<close> (section 3 of the
  specification): a paper has an identifier, a title, a venue and a year; its authors are
  rows of the join table, which the schema does not bound from below.
\<close>

record paper_row =
  p_id :: nat
  p_title :: string
  p_publishedIn :: string
  p_year :: int

text \<open>A row \<open>(a, p)\<close> of the join table links author \<open>a\<close> to paper \<open>p\<close>.\<close>

record store =
  paper_rows :: "paper_row list"
  author_rows :: "author_row list"
  author_to_paper :: "(nat \<times> nat) list"
  next_paper_id :: nat
  next_author_id :: nat

text \<open>
  What the code throws: Prisma's "record not found" error (code P2025), a JavaScript
  \<open>TypeError\<close>, a JavaScript \<open>Error\<close> with its message, or the error with which Prisma
  gives up a query that holds a number too large for the place it is meant for.
\<close>

datatype error = RecordNotFound | TypeError | Error string | ValueOutOfRange

text \<open>
  An operation returns its outcome together with the store it leaves behind, since a
  throwing operation may already have written.
\<close>

type_synonym 'a outcome = "(error + 'a) \<times> store"

definition authors_of :: "store \<Rightarrow> nat \<Rightarrow> author_row list" where
  "authors_of s pid = filter (\<lambda>a. (a_id a, pid) \<in> set (author_to_paper s)) (author_rows s)"

definition papers_of :: "store \<Rightarrow> nat \<Rightarrow> paper_row list" where
  "papers_of s aid = filter (\<lambda>p. (aid, p_id p) \<in> set (author_to_paper s)) (paper_rows s)"

definition paper_exists :: "store \<Rightarrow> nat \<Rightarrow> bool" where
  "paper_exists s pid = (\<exists>p \<in> set (paper_rows s). p_id p = pid)"

definition author_exists :: "store \<Rightarrow> nat \<Rightarrow> bool" where
  "author_exists s aid = (\<exists>a \<in> set (author_rows s). a_id a = aid)"

text \<open>
  What the primary key and the sequence of the author table maintain: no two authors share
  an identifier, and every identifier in use is below the next one that will be given.
\<close>

definition unique_ids :: "store \<Rightarrow> bool" where
  "unique_ids s =
     (distinct (map a_id (author_rows s))
      \<and> (\<forall>a \<in> set (author_rows s). a_id a < next_author_id s))"

subsection \<open>\<open>deletePaper\<close>\<close>

text \<open>
  \<open>prisma.paper.delete({where: {id}})\<close> throws when no row has the identifier;
  otherwise it removes the row and, by the cascade of the join table, the paper's links.
\<close>

definition deletePaper :: "store \<Rightarrow> nat \<Rightarrow> unit outcome" where
  "deletePaper s pid =
     (if \<not> paper_exists s pid then (Inl RecordNotFound, s)
      else (Inr (),
            s\<lparr>paper_rows := filter (\<lambda>p. p_id p \<noteq> pid) (paper_rows s),
              author_to_paper := filter (\<lambda>l. snd l \<noteq> pid) (author_to_paper s)\<rparr>))"

subsection \<open>\<open>deleteAuthor\<close>\<close>

text \<open>
  The relation filter \<open>authors: {every: {id: id}}\<close> selects the papers all of whose
  linked authors have the identifier; the result is ordered by paper identifier.
\<close>

definition papersWithSoleAuthor :: "store \<Rightarrow> nat \<Rightarrow> paper_row list" where
  "papersWithSoleAuthor s aid =
     sort_key p_id
       (filter (\<lambda>p. \<forall>a \<in> set (authors_of s (p_id p)). a_id a = aid) (paper_rows s))"

definition sole_author_message :: string where
  "sole_author_message =
     ''Cannot delete author: they are the only author of one or more papers''"

definition deleteAuthor :: "store \<Rightarrow> nat \<Rightarrow> unit outcome" where
  "deleteAuthor s aid =
     (if 0 < length (papersWithSoleAuthor s aid) then (Inl (Error sole_author_message), s)
      else if \<not> author_exists s aid then (Inl RecordNotFound, s)
      else (Inr (),
            s\<lparr>author_rows := filter (\<lambda>a. a_id a \<noteq> aid) (author_rows s),
              author_to_paper := filter (\<lambda>l. fst l \<noteq> aid) (author_to_paper s)\<rparr>))"

subsection \<open>Resolving the authors of a paper\<close>

text \<open>
  An optional property of a request body, as JavaScript hands it to Prisma: absent
  (\<open>undefined\<close>), \<open>null\<close>, or a string.
\<close>

datatype jsopt = Undefined | Null | Str string

text \<open>
  One element of \<open>paperData.authors\<close>. The name has passed \<open>validatePaperInput\<close>, so
  it is a string; e-mail address and affiliation are not validated and are taken here to be
  absent, \<open>null\<close> or a string, and the element to have no further property (any other
  value, and any property that is no column, makes Prisma throw).
\<close>

record author_input =
  in_name :: string
  in_email :: jsopt
  in_affiliation :: jsopt

text \<open>
  One field of a Prisma \<open>where\<close> object against a nullable column: \<open>undefined\<close> puts no
  condition on the column (\<open>getAllPapers\<close> relies on this for its optional filters),
  \<open>null\<close> selects the rows whose column is null, and a string selects the rows whose column
  equals it.
\<close>

fun field_where :: "jsopt \<Rightarrow> string option \<Rightarrow> bool" where
  "field_where Undefined col = True"
| "field_where Null col = (col = None)"
| "field_where (Str v) col = (col = Some v)"

definition author_where :: "author_input \<Rightarrow> author_row \<Rightarrow> bool" where
  "author_where c a =
     (a_name a = in_name c
      \<and> field_where (in_email c) (a_email a)
      \<and> field_where (in_affiliation c) (a_affiliation a))"

text \<open>\<open>prisma.author.findFirst({where: {name, email, affiliation}, orderBy: {id: "asc"}})\<close>\<close>

definition findFirst_author :: "store \<Rightarrow> author_input \<Rightarrow> author_row option" where
  "findFirst_author s c =
     (case sort_key a_id (filter (author_where c) (author_rows s)) of
        [] \<Rightarrow> None
      | a # _ \<Rightarrow> Some a)"

text \<open>What \<open>create\<close> stores in a nullable column: an absent property is stored as null.\<close>

fun column_of :: "jsopt \<Rightarrow> string option" where
  "column_of Undefined = None"
| "column_of Null = None"
| "column_of (Str v) = Some v"

text \<open>\<open>prisma.author.create({data: {name, email, affiliation}})\<close>\<close>

definition create_author :: "store \<Rightarrow> author_input \<Rightarrow> author_row \<times> store" where
  "create_author s c =
     (let a = \<lparr>a_id = next_author_id s, a_name = in_name c,
                a_email = column_of (in_email c),
                a_affiliation = column_of (in_affiliation c)\<rparr>
      in (a, s\<lparr>author_rows := author_rows s @ [a],
               next_author_id := Suc (next_author_id s)\<rparr>))"

text \<open>
  The body of the loop over \<open>paperData.authors\<close>, which \<open>createPaper\<close> and \<open>updatePaper\<close>
  both run: look the candidate up, create it when the lookup returns \<open>null\<close>, and keep
  the identifier.
\<close>

definition resolveAuthor :: "store \<Rightarrow> author_input \<Rightarrow> nat \<times> store" where
  "resolveAuthor s c =
     (case findFirst_author s c of
        Some a \<Rightarrow> (a_id a, s)
      | None \<Rightarrow> (let (a, s') = create_author s c in (a_id a, s')))"

fun resolveAuthors :: "store \<Rightarrow> author_input list \<Rightarrow> nat list \<times> store" where
  "resolveAuthors s [] = ([], s)"
| "resolveAuthors s (c # cs) =
     (let (i, s1) = resolveAuthor s c;
          (js, s2) = resolveAuthors s1 cs
      in (i # js, s2))"

text \<open>\<open>connect\<close>: link the paper to each listed author, once.\<close>

definition connect :: "nat \<Rightarrow> nat list \<Rightarrow> (nat \<times> nat) list \<Rightarrow> (nat \<times> nat) list" where
  "connect pid ids ls = fold (\<lambda>a acc. List.insert (a, pid) acc) ids ls"

record paper_data =
  pd_title :: string
  pd_publishedIn :: string
  pd_year :: int
  pd_authors :: "author_input list"

subsection \<open>\<open>createPaper\<close> and \<open>updatePaper\<close>\<close>

text \<open>
  On the inputs of this model nothing inside the \<open>try\<close> block of \<open>createPaper\<close> throws, so
  its \<open>catch\<close> branch ("Failed to insert paper") has no counterpart here.
\<close>

definition createPaper :: "store \<Rightarrow> paper_data \<Rightarrow> (paper_row \<times> author_row list) outcome" where
  "createPaper s pd =
     (let (ids, s1) = resolveAuthors s (pd_authors pd);
          p = \<lparr>p_id = next_paper_id s1, p_title = pd_title pd,
               p_publishedIn = pd_publishedIn pd, p_year = pd_year pd\<rparr>;
          s2 = s1\<lparr>paper_rows := paper_rows s1 @ [p],
                  author_to_paper := connect (p_id p) ids (author_to_paper s1),
                  next_paper_id := Suc (next_paper_id s1)\<rparr>
      in (Inr (p, authors_of s2 (p_id p)), s2))"


section \<open>JavaScript values that \<open>middleware.js\<close> inspects\<close>

subsection \<open>Numbers\<close>

text \<open>
  A JavaScript Number is an IEEE 754 double: not-a-number, an infinity, or a finite value,
  kept here as the rational it denotes (the two zeros are not told apart: no check of
  \<open>middleware.js\<close> tells them apart).
\<close>

datatype jsnum = NaN | PosInf | NegInf | Fin rat

text \<open>\<open>\<lfloor>log\<^sub>2 r\<rfloor>\<close> of a positive rational.\<close>

definition ilog2 :: "rat \<Rightarrow> int" where
  "ilog2 r =
     (let (p, q) = quotient_of r; k = bitlen p - bitlen q
      in if 2 powi k \<le> r then k else k - 1)"

definition round_half_even :: "rat \<Rightarrow> int" where
  "round_half_even x =
     (let f = \<lfloor>x\<rfloor>; d = x - of_int f
      in if d < 1 / 2 then f
         else if 1 / 2 < d then f + 1
         else if even f then f else f + 1)"

text \<open>
  The double nearest to a rational, ties to the even significand: 53 significant bits,
  least exponent \<open>-1022\<close> (below it the spacing stays \<open>2\<^sup>-\<^sup>1\<^sup>0\<^sup>7\<^sup>4\<close>), and an infinity from
  \<open>2\<^sup>1\<^sup>0\<^sup>2\<^sup>4\<close> on.
\<close>

definition toDouble :: "rat \<Rightarrow> jsnum" where
  "toDouble r =
     (if r = 0 then Fin 0
      else (let a = \<bar>r\<bar>;
                e = max (ilog2 a) (- 1022);
                u = 2 powi (e - 52);
                v = of_int (round_half_even (a / u)) * u
            in if 2 ^ 1024 \<le> v then (if 0 < r then PosInf else NegInf)
               else Fin (sgn r * v)))"

fun negate :: "jsnum \<Rightarrow> jsnum" where
  "negate NaN = NaN"
| "negate PosInf = NegInf"
| "negate NegInf = PosInf"
| "negate (Fin r) = Fin (- r)"

text \<open>\<open>Number.isInteger\<close> on a Number.\<close>

fun isInteger :: "jsnum \<Rightarrow> bool" where
  "isInteger (Fin r) = (of_int \<lfloor>r\<rfloor> = r)"
| "isInteger _ = False"

text \<open>The comparison \<open>a < b\<close> of two Numbers; it is false when either is not-a-number.\<close>

fun js_less :: "jsnum \<Rightarrow> jsnum \<Rightarrow> bool" where
  "js_less NaN _ = False"
| "js_less _ NaN = False"
| "js_less PosInf _ = False"
| "js_less _ PosInf = True"
| "js_less _ NegInf = False"
| "js_less NegInf _ = True"
| "js_less (Fin a) (Fin b) = (a < b)"

text \<open>\<open>a <= b\<close>, which for Numbers other than not-a-number is the negation of \<open>b < a\<close>.\<close>

fun js_le :: "jsnum \<Rightarrow> jsnum \<Rightarrow> bool" where
  "js_le NaN _ = False"
| "js_le _ NaN = False"
| "js_le a b = (\<not> js_less b a)"

subsection \<open>Strings\<close>

text \<open>
  A string is a list of code units; the model covers the code units below 256. The white
  space and line terminators among them are tab, line feed, vertical tab, form feed,
  carriage return, space and no-break space.
\<close>

definition is_ws :: "char \<Rightarrow> bool" where
  "is_ws c = ((of_char c :: int) \<in> {9, 10, 11, 12, 13, 32, 160})"

text \<open>\<open>String.prototype.trim\<close>\<close>

definition trim :: "string \<Rightarrow> string" where
  "trim s = rev (dropWhile is_ws (rev (dropWhile is_ws s)))"

text \<open>The value of a character as a digit, up to hexadecimal.\<close>

definition hex_value :: "char \<Rightarrow> int option" where
  "hex_value c =
     (let n = (of_char c :: int)
      in if 48 \<le> n \<and> n \<le> 57 then Some (n - 48)
         else if 97 \<le> n \<and> n \<le> 102 then Some (n - 87)
         else if 65 \<le> n \<and> n \<le> 70 then Some (n - 55)
         else None)"

definition is_digit :: "int \<Rightarrow> char \<Rightarrow> bool" where
  "is_digit b c = (case hex_value c of None \<Rightarrow> False | Some d \<Rightarrow> d < b)"

definition digit_value :: "char \<Rightarrow> int" where
  "digit_value c = (case hex_value c of None \<Rightarrow> 0 | Some d \<Rightarrow> d)"

definition radix_value :: "int \<Rightarrow> string \<Rightarrow> int" where
  "radix_value b s = foldl (\<lambda>acc c. acc * b + digit_value c) 0 s"

subsection \<open>\<open>Number(string)\<close>\<close>

text \<open>
  The exponent part of a decimal literal: nothing, or \<open>e\<close> or \<open>E\<close>, an optional sign and
  at least one digit.
\<close>

definition signed_integer :: "string \<Rightarrow> int option" where
  "signed_integer s =
     (case s of
        [] \<Rightarrow> None
      | c # t \<Rightarrow>
          (if c = CHR ''+'' then
             (if t \<noteq> [] \<and> list_all (is_digit 10) t then Some (radix_value 10 t) else None)
           else if c = CHR ''-'' then
             (if t \<noteq> [] \<and> list_all (is_digit 10) t then Some (- radix_value 10 t) else None)
           else
             (if list_all (is_digit 10) s then Some (radix_value 10 s) else None)))"

definition exponent_part :: "string \<Rightarrow> int option" where
  "exponent_part s =
     (case s of
        [] \<Rightarrow> Some 0
      | c # t \<Rightarrow> (if c = CHR ''e'' \<or> c = CHR ''E'' then signed_integer t else None))"

text \<open>
  The mathematical value of an unsigned decimal literal other than \<open>Infinity\<close>: digits,
  an optional point with optional digits after it, an optional exponent part; at least one
  digit before or after the point.
\<close>

definition unsigned_decimal :: "string \<Rightarrow> rat option" where
  "unsigned_decimal s =
     (let ip = takeWhile (is_digit 10) s;
          r1 = dropWhile (is_digit 10) s;
          (fp, r2) = (case r1 of
                        [] \<Rightarrow> ([], [])
                      | c # t \<Rightarrow>
                          (if c = CHR ''.''
                           then (takeWhile (is_digit 10) t, dropWhile (is_digit 10) t)
                           else ([], r1)))
      in if ip = [] \<and> fp = [] then None
         else (case exponent_part r2 of
                 None \<Rightarrow> None
               | Some e \<Rightarrow>
                   Some (of_int (radix_value 10 (ip @ fp)) * 10 powi (e - int (length fp)))))"

definition unsigned_literal :: "string \<Rightarrow> jsnum" where
  "unsigned_literal s =
     (if s = ''Infinity'' then PosInf
      else (case unsigned_decimal s of None \<Rightarrow> NaN | Some r \<Rightarrow> toDouble r))"

definition str_decimal_literal :: "string \<Rightarrow> jsnum" where
  "str_decimal_literal s =
     (case s of
        [] \<Rightarrow> NaN
      | c # t \<Rightarrow>
          (if c = CHR ''+'' then unsigned_literal t
           else if c = CHR ''-'' then negate (unsigned_literal t)
           else unsigned_literal s))"

text \<open>The base that the prefix \<open>0b\<close>, \<open>0o\<close> or \<open>0x\<close> announces, in either case.\<close>

definition radix_prefix :: "string \<Rightarrow> (int \<times> string) option" where
  "radix_prefix s =
     (case s of
        z # c # t \<Rightarrow>
          (if z \<noteq> CHR ''0'' then None
           else if c = CHR ''b'' \<or> c = CHR ''B'' then Some (2, t)
           else if c = CHR ''o'' \<or> c = CHR ''O'' then Some (8, t)
           else if c = CHR ''x'' \<or> c = CHR ''X'' then Some (16, t)
           else None)
      | _ \<Rightarrow> None)"

text \<open>
  The conversion of a string to a Number (\<open>StringToNumber\<close> of the language
  specification): white space around the literal is dropped, the empty literal is 0, and
  a string that is no numeric literal is not-a-number. The conversion is the correctly
  rounded one; the language lets an implementation round a literal of more than 20
  significant digits less exactly.
\<close>

definition StringToNumber :: "string \<Rightarrow> jsnum" where
  "StringToNumber s =
     (let t = trim s
      in if t = [] then Fin 0
         else (case radix_prefix t of
                 Some (b, ds) \<Rightarrow>
                   (if ds \<noteq> [] \<and> list_all (is_digit b) ds
                    then toDouble (of_int (radix_value b ds)) else NaN)
               | None \<Rightarrow> str_decimal_literal t))"

subsection \<open>Values of a query string and of a request body\<close>

text \<open>
  What the query parser of Express puts under one key of \<open>req.query\<close>: a string, an
  array (a repeated key) or an object (a key with brackets).
\<close>

datatype qval = QString string | QArray "qval list" | QObject "(string \<times> qval) list"

fun join_comma :: "string list \<Rightarrow> string" where
  "join_comma [] = []"
| "join_comma [x] = x"
| "join_comma (x # y # zs) = x @ CHR '','' # join_comma (y # zs)"

text \<open>
  The string a query value converts to: an array joins the strings of its elements with
  commas, an object is \<open>[object Object]\<close>.
\<close>

fun q_toString :: "qval \<Rightarrow> string" where
  "q_toString (QString s) = s"
| "q_toString (QArray xs) = join_comma (map q_toString xs)"
| "q_toString (QObject kvs) = ''[object Object]''"

text \<open>\<open>Number(v)\<close> for a query value \<open>v\<close>.\<close>

definition Number :: "qval \<Rightarrow> jsnum" where
  "Number v = StringToNumber (q_toString v)"

text \<open>The string that a query value is, when \<open>typeof\<close> says it is one.\<close>

fun q_string :: "qval \<Rightarrow> string option" where
  "q_string (QString s) = Some s"
| "q_string _ = None"

text \<open>
  A value of a parsed JSON body. An object lists each of its keys once. A number of a
  body is a Number already.
\<close>

datatype jsval =
  JUndefined | JNull | JBool bool | JNum jsnum | JStr string
  | JArr "jsval list" | JObj "(string \<times> jsval) list"

fun j_string :: "jsval \<Rightarrow> string option" where
  "j_string (JStr s) = Some s"
| "j_string _ = None"

fun j_number :: "jsval \<Rightarrow> jsnum option" where
  "j_number (JNum n) = Some n"
| "j_number _ = None"

section \<open>\<open>middleware.js\<close>\<close>

text \<open>
  A middleware either answers the request itself, with a status and a body of an
  \<open>error\<close> and a \<open>message\<close>, or calls \<open>next()\<close> with the request as it has left it.
\<close>

datatype 'a mw = Respond nat string string | Next 'a

definition respondWithValidationError :: "string \<Rightarrow> 'a mw" where
  "respondWithValidationError message = Respond 400 ''Validation Error'' message"

text \<open>
  The argument of the two string checks is the string that the value is, or \<open>None\<close> when
  \<open>typeof\<close> does not say \<open>"string"\<close>.
\<close>

definition isNonEmptyStringWithoutTrim :: "string option \<Rightarrow> bool" where
  "isNonEmptyStringWithoutTrim str = (case str of None \<Rightarrow> False | Some s \<Rightarrow> 0 < length s)"

definition isNonEmptyStringAfterTrim :: "string option \<Rightarrow> bool" where
  "isNonEmptyStringAfterTrim str =
     (case str of None \<Rightarrow> False | Some s \<Rightarrow> 0 < length (trim s))"

definition isIntegerGreaterThan1900 :: "jsnum \<Rightarrow> bool" where
  "isIntegerGreaterThan1900 num = (isInteger num \<and> js_less (Fin 1900) num)"

definition isIntegerGreaterThan0 :: "jsnum \<Rightarrow> bool" where
  "isIntegerGreaterThan0 num = (isInteger num \<and> js_less (Fin 0) num)"

definition isIntegerLeThan100 :: "jsnum \<Rightarrow> bool" where
  "isIntegerLeThan100 num = (isInteger num \<and> js_le num (Fin 100))"

definition isIntegerNonNegative :: "jsnum \<Rightarrow> bool" where
  "isIntegerNonNegative num = (isInteger num \<and> js_le (Fin 0) num)"

text \<open>
  \<open>validateLimit\<close> and \<open>validateOffset\<close> return \<open>false\<close> (here \<open>None\<close>) or store a Number
  under the key and return \<open>true\<close> (here the Number stored).
\<close>

definition validateLimit :: "qval option \<Rightarrow> jsnum option" where
  "validateLimit limit =
     (case limit of
        None \<Rightarrow> Some (Fin 10)
      | Some v \<Rightarrow>
          (let parsedLimit = Number v
           in if \<not> isIntegerGreaterThan0 parsedLimit \<or> \<not> isIntegerLeThan100 parsedLimit
              then None else Some parsedLimit))"

definition validateOffset :: "qval option \<Rightarrow> jsnum option" where
  "validateOffset offset =
     (case offset of
        None \<Rightarrow> Some (Fin 0)
      | Some v \<Rightarrow>
          (let parsedOffset = Number v
           in if \<not> isIntegerNonNegative parsedOffset then None else Some parsedOffset))"

subsection \<open>\<open>validatePaperInput\<close>\<close>

record raw_paper =
  r_title :: jsval
  r_publishedIn :: jsval
  r_year :: jsval
  r_authors :: jsval

text \<open>
  The destructuring \<open>const {name} = author\<close>: it throws a \<open>TypeError\<close> on \<open>null\<close> and on
  \<open>undefined\<close>; an object gives the value under its key \<open>name\<close>, and every other value has
  no such property.
\<close>

definition destructure_name :: "jsval \<Rightarrow> error + jsval" where
  "destructure_name v =
     (case v of
        JUndefined \<Rightarrow> Inl TypeError
      | JNull \<Rightarrow> Inl TypeError
      | JObj kvs \<Rightarrow> Inr (case map_of kvs ''name'' of None \<Rightarrow> JUndefined | Some x \<Rightarrow> x)
      | _ \<Rightarrow> Inr JUndefined)"

text \<open>The loop over the authors, which stops at the first author without a name.\<close>

fun author_name_errors :: "jsval list \<Rightarrow> error + string list" where
  "author_name_errors [] = Inr []"
| "author_name_errors (a # rest) =
     (case destructure_name a of
        Inl e \<Rightarrow> Inl e
      | Inr name \<Rightarrow>
          (if \<not> isNonEmptyStringAfterTrim (j_string name)
           then Inr [''Author name is required'']
           else author_name_errors rest))"

definition title_errors :: "jsval \<Rightarrow> string list" where
  "title_errors title =
     (if title = JNull \<or> \<not> isNonEmptyStringAfterTrim (j_string title)
      then [''Title is required''] else [])"

definition publishedIn_errors :: "jsval \<Rightarrow> string list" where
  "publishedIn_errors publishedIn =
     (if publishedIn = JNull \<or> \<not> isNonEmptyStringAfterTrim (j_string publishedIn)
      then [''Published venue is required''] else [])"

text \<open>\<open>Number.isInteger\<close> is false on a value that is not a Number.\<close>

definition year_errors :: "jsval \<Rightarrow> string list" where
  "year_errors year =
     (if year = JNull \<or> year = JUndefined then [''Published year is required'']
      else if \<not> (case j_number year of None \<Rightarrow> False | Some n \<Rightarrow> isIntegerGreaterThan1900 n)
      then [''Valid year after 1900 is required'']
      else [])"

definition authors_errors :: "jsval \<Rightarrow> error + string list" where
  "authors_errors authors =
     (case authors of
        JArr (a # rest) \<Rightarrow> author_name_errors (a # rest)
      | _ \<Rightarrow> Inr [''At least one author is required''])"

text \<open>
  The four checks push their messages onto \<open>errors\<close> in this order; an exception of the
  loop leaves the function before it returns the list.
\<close>

definition validatePaperInput :: "raw_paper \<Rightarrow> error + string list" where
  "validatePaperInput paper =
     (let errors = title_errors (r_title paper) @ publishedIn_errors (r_publishedIn paper)
                     @ year_errors (r_year paper)
      in case authors_errors (r_authors paper) of
           Inl e \<Rightarrow> Inl e
         | Inr messages \<Rightarrow> Inr (errors @ messages))"

subsection \<open>\<open>validatePaperQueryParams\<close> and \<open>validateAuthorQueryParams\<close>\<close>

record paper_query =
  q_year :: "qval option"
  q_publishedIn :: "qval option"
  q_author :: "qval option"
  q_limit :: "qval option"
  q_offset :: "qval option"

text \<open>\<open>req.query\<close> as \<open>validatePaperQueryParams\<close> leaves it when it calls \<open>next()\<close>.\<close>

record paper_query_ok =
  v_year :: "jsnum option"
  v_publishedIn :: "qval option"
  v_author :: "qval option"
  v_limit :: jsnum
  v_offset :: jsnum

definition query_error :: string where
  "query_error = ''Invalid query parameter format''"

definition author_param_ok :: "qval \<Rightarrow> bool" where
  "author_param_ok author =
     (case author of
        QArray names \<Rightarrow> list_all (\<lambda>authorName. isNonEmptyStringAfterTrim (q_string authorName)) names
      | _ \<Rightarrow> isNonEmptyStringAfterTrim (q_string author))"

definition validatePaperQueryParams :: "paper_query \<Rightarrow> paper_query_ok mw" where
  "validatePaperQueryParams q =
     (if (case q_year q of None \<Rightarrow> False | Some y \<Rightarrow> \<not> isIntegerGreaterThan1900 (Number y))
      then respondWithValidationError query_error
      else if (case q_publishedIn q of
                 None \<Rightarrow> False
               | Some p \<Rightarrow> \<not> isNonEmptyStringWithoutTrim (q_string p))
      then respondWithValidationError query_error
      else if (case q_author q of None \<Rightarrow> False | Some a \<Rightarrow> \<not> author_param_ok a)
      then respondWithValidationError query_error
      else (case validateLimit (q_limit q) of
              None \<Rightarrow> respondWithValidationError query_error
            | Some limit \<Rightarrow>
                (case validateOffset (q_offset q) of
                   None \<Rightarrow> respondWithValidationError query_error
                 | Some offset \<Rightarrow>
                     Next \<lparr>v_year = map_option Number (q_year q),
                           v_publishedIn = q_publishedIn q, v_author = q_author q,
                           v_limit = limit, v_offset = offset\<rparr>)))"

record author_query =
  aq_name :: "qval option"
  aq_affiliation :: "qval option"
  aq_limit :: "qval option"
  aq_offset :: "qval option"

record author_query_ok =
  av_name :: "qval option"
  av_affiliation :: "qval option"
  av_limit :: jsnum
  av_offset :: jsnum

definition validateAuthorQueryParams :: "author_query \<Rightarrow> author_query_ok mw" where
  "validateAuthorQueryParams q =
     (if (case aq_name q of
            None \<Rightarrow> False
          | Some n \<Rightarrow> \<not> isNonEmptyStringAfterTrim (q_string n))
      then respondWithValidationError query_error
      else if (case aq_affiliation q of
                 None \<Rightarrow> False
               | Some a \<Rightarrow> \<not> isNonEmptyStringAfterTrim (q_string a))
      then respondWithValidationError query_error
      else (case validateLimit (aq_limit q) of
              None \<Rightarrow> respondWithValidationError query_error
            | Some limit \<Rightarrow>
                (case validateOffset (aq_offset q) of
                   None \<Rightarrow> respondWithValidationError query_error
                 | Some offset \<Rightarrow>
                     Next \<lparr>av_name = aq_name q, av_affiliation = aq_affiliation q,
                           av_limit = limit, av_offset = offset\<rparr>)))"

subsection \<open>\<open>validateResourceId\<close>\<close>

definition id_error :: string where
  "id_error = ''Invalid ID format''"

text \<open>The path parameter \<open>id\<close> is a string; \<open>next()\<close> finds the parsed Number in its place.\<close>

definition validateResourceId :: "string \<Rightarrow> jsnum mw" where
  "validateResourceId ident =
     (let parsedId = StringToNumber ident
      in if \<not> isIntegerGreaterThan0 parsedId then respondWithValidationError id_error
         else Next parsedId)"

section \<open>The list queries of \<open>database.js\<close>\<close>

text \<open>
  \<open>getAllPapers\<close> and \<open>getAllAuthors\<close> hand a \<open>where\<close> object, \<open>skip\<close> and \<open>take\<close> to
  Prisma's \<open>findMany\<close>. What Prisma and PostgreSQL make of them decides what the two
  functions return, and comes first.
\<close>

subsection \<open>Text filters\<close>

text \<open>
  Prisma sends \<open>{contains: v, mode: "insensitive"}\<close> to PostgreSQL as the comparison
  \<open>column ILIKE '%v%'\<close> and leaves the characters of \<open>v\<close> as they are. In the pattern a
  \<open>%\<close> stands for any run of characters, a \<open>_\<close> for any one character, and a backslash
  makes the character after it stand for itself. \<open>like_match p t\<close> says that the whole of
  the text \<open>t\<close> matches the pattern \<open>p\<close>. PostgreSQL refuses a pattern that ends in a lone
  backslash; no pattern built below does, since the last character of each is the \<open>%\<close>
  that Prisma appends.
\<close>

fun like_match :: "string \<Rightarrow> string \<Rightarrow> bool" where
  "like_match [] t = (t = [])"
| "like_match (c # p) t =
     (if c = CHR ''%''
      then (like_match p t
            \<or> (case t of [] \<Rightarrow> False | x # rest \<Rightarrow> like_match (c # p) rest))
      else if c = CHR ''_''
      then (case t of [] \<Rightarrow> False | x # rest \<Rightarrow> like_match p rest)
      else if c = CHR 0x5C
      then (case p of
              [] \<Rightarrow> False
            | d # q \<Rightarrow> (case t of [] \<Rightarrow> False | x # rest \<Rightarrow> d = x \<and> like_match q rest))
      else (case t of [] \<Rightarrow> False | x # rest \<Rightarrow> c = x \<and> like_match p rest))"

text \<open>
  \<open>ILIKE\<close> lower-cases the pattern and the column and then matches as \<open>LIKE\<close> does. Which
  characters have a lower case is a matter of the collation of the database, which no file
  of the repository sets; the lower-casing of one character is therefore a parameter
  \<open>lower\<close> of all that follows. \<open>lower_char\<close> is the lower-casing of the collation \<open>C\<close>: it
  maps the capital letters of ASCII and nothing else.
\<close>

definition lower_char :: "char \<Rightarrow> char" where
  "lower_char c =
     (if 65 \<le> (of_char c :: nat) \<and> (of_char c :: nat) \<le> 90
      then char_of ((of_char c :: nat) + 32) else c)"

definition contains_insensitive :: "(char \<Rightarrow> char) \<Rightarrow> string \<Rightarrow> string \<Rightarrow> bool" where
  "contains_insensitive lower col v =
     like_match (map lower (''%'' @ v @ ''%'')) (map lower col)"

subsection \<open>Numbers on their way to the database\<close>

text \<open>
  Prisma sends a query to its engine as JSON text. \<open>JSON.stringify\<close> writes an integer
  Number below \<open>10\<^sup>2\<^sup>1\<close> with the fewest significant digits that still read back as the
  same double, and zeros after them. \<open>shortest_from n e\<close> tries the multiples of
  \<open>10\<^sup>e\<close>, then of \<open>10\<^sup>e\<^sup>-\<^sup>1\<close>, and so on, and takes the first one next to \<open>n\<close> that reads back
  as the double of \<open>n\<close>, the nearer one if the multiples on both sides do.
  \<open>json_integer n\<close> is the integer that is written for the Number \<open>n\<close>: \<open>n\<close> itself
  below \<open>2\<^sup>5\<^sup>3\<close>, but \<open>4611686018427388000\<close> for \<open>2\<^sup>6\<^sup>2 = 4611686018427387904\<close>.
\<close>

fun shortest_from :: "int \<Rightarrow> nat \<Rightarrow> int" where
  "shortest_from n 0 = n"
| "shortest_from n (Suc e) =
     (let u = 10 ^ Suc e;
          lo = (n div u) * u;
          hi = lo + u;
          ok_lo = (toDouble (of_int lo) = toDouble (of_int n));
          ok_hi = (toDouble (of_int hi) = toDouble (of_int n))
      in if ok_lo \<and> ok_hi
         then (if n - lo < hi - n then lo
               else if hi - n < n - lo then hi
               else if even (n div u) then lo else hi)
         else if ok_lo then lo
         else if ok_hi then hi
         else shortest_from n e)"

definition json_integer :: "nat \<Rightarrow> nat" where
  "json_integer n = nat (shortest_from (int n) (floorlog 10 n - 1))"

text \<open>
  The engine reads \<open>skip\<close> and \<open>take\<close> as signed 64-bit integers and refuses the query when
  one of them does not fit. Of a value that fits, the SQL text that the engine writes keeps
  the low 32 bits: an offset of \<open>2\<^sup>3\<^sup>2\<close> skips nothing.
\<close>

definition skip_or_take :: "nat \<Rightarrow> error + nat" where
  "skip_or_take n =
     (let j = json_integer n
      in if 2 ^ 63 \<le> j then Inl ValueOutOfRange else Inr (j mod 2 ^ 32))"

text \<open>
  Modelled from the spec: the column \<open>year\<close> of the schema \<open>prisma/schema.prisma\<close> is an
  integer (section 3 of the specification), which Prisma keeps in PostgreSQL as a signed
  32-bit integer. A query that compares the column with an integer beyond that range
  fails.
\<close>

definition fits_int4 :: "int \<Rightarrow> bool" where
  "fits_int4 y = (- (2 ^ 31) \<le> y \<and> y < 2 ^ 31)"

text \<open>An absent \<open>year\<close> is not compared with anything.\<close>

definition year_fits :: "int option \<Rightarrow> bool" where
  "year_fits year = (case year of None \<Rightarrow> True | Some y \<Rightarrow> fits_int4 y)"

subsection \<open>\<open>getAllPapers\<close>\<close>

text \<open>The \<open>author\<close> filter: absent, one string, or an array of strings.\<close>

datatype author_filter = NoAuthor | AuthorString string | AuthorArray "string list"

text \<open>
  The filters as \<open>getAllPapers\<close> receives them; \<open>year\<close>, \<open>limit\<close> and \<open>offset\<close> are
  Numbers, kept here as the integers they denote.
\<close>

record paper_filters =
  f_year :: "int option"
  f_publishedIn :: "string option"
  f_author :: author_filter
  f_limit :: nat
  f_offset :: nat

definition some_author_named ::
  "(char \<Rightarrow> char) \<Rightarrow> store \<Rightarrow> paper_row \<Rightarrow> string \<Rightarrow> bool" where
  "some_author_named lower s p v =
     (\<exists>a \<in> set (authors_of s (p_id p)). contains_insensitive lower (a_name a) v)"

fun authorArrayFilter ::
  "(char \<Rightarrow> char) \<Rightarrow> author_filter \<Rightarrow> store \<Rightarrow> paper_row \<Rightarrow> bool" where
  "authorArrayFilter lower (AuthorArray []) s p = (authors_of s (p_id p) = [])"
| "authorArrayFilter lower (AuthorArray vs) s p =
     (\<forall>v \<in> set vs. some_author_named lower s p v)"
| "authorArrayFilter lower (AuthorString v) s p = some_author_named lower s p v"
| "authorArrayFilter lower NoAuthor s p = True"

text \<open>
  The \<open>where\<close> object of \<open>getAllPapers\<close>. A falsy \<open>year\<close> (absent or 0) and a falsy
  \<open>publishedIn\<close> (absent or the empty string) put no condition on the column.
\<close>

definition paper_where ::
  "(char \<Rightarrow> char) \<Rightarrow> paper_filters \<Rightarrow> store \<Rightarrow> paper_row \<Rightarrow> bool" where
  "paper_where lower f s p =
     ((case f_year f of
         None \<Rightarrow> True
       | Some y \<Rightarrow> (if y \<noteq> 0 then p_year p = y else True))
      \<and> (case f_publishedIn f of
            None \<Rightarrow> True
          | Some v \<Rightarrow>
              (if v \<noteq> [] then contains_insensitive lower (p_publishedIn p) v else True))
      \<and> authorArrayFilter lower (f_author f) s p)"

text \<open>The rows that pass the filters, ordered by identifier, before \<open>skip\<close> and \<open>take\<close>.\<close>

definition matching_papers ::
  "(char \<Rightarrow> char) \<Rightarrow> store \<Rightarrow> paper_filters \<Rightarrow> paper_row list" where
  "matching_papers lower s f = sort_key p_id (filter (paper_where lower f s) (paper_rows s))"

record paper_page =
  pp_papers :: "(paper_row \<times> author_row list) list"
  pp_total :: nat
  pp_limit :: nat
  pp_offset :: nat

text \<open>
  \<open>findMany\<close> throws when the database or the engine refuses the query; otherwise
  \<open>getAllPapers\<close> returns the rows found, each with its authors, their number as \<open>total\<close>,
  and the limit and the offset it was given.
\<close>

definition getAllPapers ::
  "(char \<Rightarrow> char) \<Rightarrow> store \<Rightarrow> paper_filters \<Rightarrow> error + paper_page" where
  "getAllPapers lower s f =
     (if \<not> year_fits (f_year f) then Inl ValueOutOfRange
      else (case skip_or_take (f_offset f) of
              Inl e \<Rightarrow> Inl e
            | Inr skip \<Rightarrow>
                (case skip_or_take (f_limit f) of
                   Inl e \<Rightarrow> Inl e
                 | Inr n \<Rightarrow>
                     (let papers = map (\<lambda>p. (p, authors_of s (p_id p)))
                                     (take n (drop skip (matching_papers lower s f)));
                          total = length papers
                      in Inr \<lparr>pp_papers = papers, pp_total = total,
                               pp_limit = f_limit f, pp_offset = f_offset f\<rparr>))))"

subsection \<open>\<open>getAllAuthors\<close>\<close>

record author_filters =
  af_name :: "string option"
  af_affiliation :: "string option"
  af_limit :: nat
  af_offset :: nat

text \<open>
  The \<open>where\<close> object of \<open>getAllAuthors\<close>; a falsy \<open>name\<close> or \<open>affiliation\<close> puts no
  condition on the column, and a null column matches no pattern.
\<close>

definition author_rows_where ::
  "(char \<Rightarrow> char) \<Rightarrow> author_filters \<Rightarrow> author_row \<Rightarrow> bool" where
  "author_rows_where lower f a =
     ((case af_name f of
         None \<Rightarrow> True
       | Some v \<Rightarrow> (if v \<noteq> [] then contains_insensitive lower (a_name a) v else True))
      \<and> (case af_affiliation f of
            None \<Rightarrow> True
          | Some v \<Rightarrow>
              (if v \<noteq> []
               then (case a_affiliation a of
                       None \<Rightarrow> False
                     | Some col \<Rightarrow> contains_insensitive lower col v)
               else True)))"

definition matching_authors ::
  "(char \<Rightarrow> char) \<Rightarrow> store \<Rightarrow> author_filters \<Rightarrow> author_row list" where
  "matching_authors lower s f =
     sort_key a_id (filter (author_rows_where lower f) (author_rows s))"

record author_page =
  ap_authors :: "(author_row \<times> paper_row list) list"
  ap_total :: nat
  ap_limit :: nat
  ap_offset :: nat

definition getAllAuthors ::
  "(char \<Rightarrow> char) \<Rightarrow> store \<Rightarrow> author_filters \<Rightarrow> error + author_page" where
  "getAllAuthors lower s f =
     (case skip_or_take (af_offset f) of
        Inl e \<Rightarrow> Inl e
      | Inr skip \<Rightarrow>
          (case skip_or_take (af_limit f) of
             Inl e \<Rightarrow> Inl e
           | Inr n \<Rightarrow>
               (let authors = map (\<lambda>a. (a, papers_of s (a_id a)))
                                (take n (drop skip (matching_authors lower s f)));
                    total = length authors
                in Inr \<lparr>ap_authors = authors, ap_total = total,
                         ap_limit = af_limit f, ap_offset = af_offset f\<rparr>)))"

section \<open>The list routes\<close>

text \<open>
  The handlers of \<open>GET /api/papers\<close> and \<open>GET /api/authors\<close> run only when the middleware
  has called \<open>next()\<close>; they hand the validated parameters to \<open>database.js\<close>. The
  parameters are the same JavaScript values on both sides; here the Numbers, which the
  middleware has found to be integers, become the integers they denote.
\<close>

fun integer_of :: "jsnum \<Rightarrow> int" where
  "integer_of (Fin r) = \<lfloor>r\<rfloor>"
| "integer_of _ = 0"

fun strings_of :: "qval list \<Rightarrow> string list" where
  "strings_of [] = []"
| "strings_of (QString s # rest) = s # strings_of rest"
| "strings_of (_ # rest) = strings_of rest"

fun author_filter_of :: "qval option \<Rightarrow> author_filter" where
  "author_filter_of None = NoAuthor"
| "author_filter_of (Some (QString s)) = AuthorString s"
| "author_filter_of (Some (QArray names)) = AuthorArray (strings_of names)"
| "author_filter_of (Some (QObject kvs)) = NoAuthor"

definition string_filter_of :: "qval option \<Rightarrow> string option" where
  "string_filter_of v = (case v of None \<Rightarrow> None | Some x \<Rightarrow> q_string x)"

definition paper_filters_of :: "paper_query_ok \<Rightarrow> paper_filters" where
  "paper_filters_of v =
     \<lparr>f_year = map_option integer_of (v_year v),
      f_publishedIn = string_filter_of (v_publishedIn v),
      f_author = author_filter_of (v_author v),
      f_limit = nat (integer_of (v_limit v)),
      f_offset = nat (integer_of (v_offset v))\<rparr>"

definition author_filters_of :: "author_query_ok \<Rightarrow> author_filters" where
  "author_filters_of v =
     \<lparr>af_name = string_filter_of (av_name v),
      af_affiliation = string_filter_of (av_affiliation v),
      af_limit = nat (integer_of (av_limit v)),
      af_offset = nat (integer_of (av_offset v))\<rparr>"

text \<open>
  What the handler catches it passes to \<open>errorHandler\<close> of \<open>middleware.js\<close>, which answers
  500 whatever the error is.
\<close>

definition errorHandler :: "error \<Rightarrow> 'a mw" where
  "errorHandler err = Respond 500 ''Internal Server Error'' ''An unexpected error occurred''"

definition get_papers :: "(char \<Rightarrow> char) \<Rightarrow> store \<Rightarrow> paper_query \<Rightarrow> paper_page mw" where
  "get_papers lower s q =
     (case validatePaperQueryParams q of
        Respond status err message \<Rightarrow> Respond status err message
      | Next v \<Rightarrow>
          (case getAllPapers lower s (paper_filters_of v) of
             Inl e \<Rightarrow> errorHandler e
           | Inr page \<Rightarrow> Next page))"

definition get_authors :: "(char \<Rightarrow> char) \<Rightarrow> store \<Rightarrow> author_query \<Rightarrow> author_page mw" where
  "get_authors lower s q =
     (case validateAuthorQueryParams q of
        Respond status err message \<Rightarrow> Respond status err message
      | Next v \<Rightarrow>
          (case getAllAuthors lower s (author_filters_of v) of
             Inl e \<Rightarrow> errorHandler e
           | Inr page \<Rightarrow> Next page))"

section \<open>Vocabulary of the specification\<close>

text \<open>
  The specification's "sole author": the author is the only member of the author set of
  some paper.
\<close>

definition sole_author :: "store \<Rightarrow> nat \<Rightarrow> bool" where
  "sole_author s aid =
     (\<exists>p \<in> set (paper_rows s). set (map a_id (authors_of s (p_id p))) = {aid})"

text \<open>
  The specification's identity of authors: name, e-mail address and affiliation are all
  equal, where a candidate's absent or \<open>null\<close> field equals only a null column.
\<close>

definition same_identity :: "author_input \<Rightarrow> author_row \<Rightarrow> bool" where
  "same_identity c a =
     (a_name a = in_name c
      \<and> a_email a = column_of (in_email c)
      \<and> a_affiliation a = column_of (in_affiliation c))"

text \<open>
  The specification's "contains, case-insensitively": the lower-cased value is a run of
  consecutive characters of the lower-cased column.
\<close>

definition contains_ignoring_case :: "(char \<Rightarrow> char) \<Rightarrow> string \<Rightarrow> string \<Rightarrow> bool" where
  "contains_ignoring_case lower col v = sublist (map lower v) (map lower col)"

text \<open>A text without any of the three characters that \<open>LIKE\<close> does not take literally.\<close>

definition plain_text :: "string \<Rightarrow> bool" where
  "plain_text v = list_all (\<lambda>c. c \<noteq> CHR ''%'' \<and> c \<noteq> CHR ''_'' \<and> c \<noteq> CHR 0x5C) v"

section \<open>Sample requests and stores\<close>

definition paper1 :: paper_row where
  "paper1 = \<lparr>p_id = 1, p_title = ''Paper A'', p_publishedIn = ''Conf A'', p_year = 2021\<rparr>"

definition paper2 :: paper_row where
  "paper2 = \<lparr>p_id = 2, p_title = ''Paper B'', p_publishedIn = ''Conf B'', p_year = 2022\<rparr>"

definition paper3 :: paper_row where
  "paper3 = \<lparr>p_id = 3, p_title = ''Paper C'', p_publishedIn = ''Conf C'', p_year = 2023\<rparr>"

definition author1 :: author_row where
  "author1 = \<lparr>a_id = 1, a_name = ''John Doe'', a_email = Some ''john@mail.com'',
               a_affiliation = Some ''University X''\<rparr>"

definition author2 :: author_row where
  "author2 = \<lparr>a_id = 2, a_name = ''Jane Smith'', a_email = None,
               a_affiliation = Some ''University Y''\<rparr>"

text \<open>Two papers; the first has both authors, the second only the first author.\<close>

definition store_shared :: store where
  "store_shared = \<lparr>paper_rows = [paper1, paper2], author_rows = [author1, author2],
      author_to_paper = [(1, 1), (2, 1), (1, 2)], next_paper_id = 3, next_author_id = 3\<rparr>"

text \<open>One paper without any author, and one author without any paper.\<close>

definition store_authorless :: store where
  "store_authorless = \<lparr>paper_rows = [paper1], author_rows = [author1],
      author_to_paper = [], next_paper_id = 2, next_author_id = 2\<rparr>"

definition store_empty :: store where
  "store_empty = \<lparr>paper_rows = [], author_rows = [], author_to_paper = [],
      next_paper_id = 1, next_author_id = 1\<rparr>"



definition john_full :: author_input where
  "john_full = \<lparr>in_name = ''John Doe'', in_email = Str ''john@mail.com'',
                 in_affiliation = Str ''University X''\<rparr>"

definition john_name_only :: author_input where
  "john_name_only = \<lparr>in_name = ''John Doe'', in_email = Undefined,
                      in_affiliation = Undefined\<rparr>"

definition paper_a :: paper_data where
  "paper_a = \<lparr>pd_title = ''Paper A'', pd_publishedIn = ''Conf A'', pd_year = 2021,
      pd_authors = [john_full]\<rparr>"

definition paper_b :: paper_data where
  "paper_b = \<lparr>pd_title = ''Paper B'', pd_publishedIn = ''Conf B'', pd_year = 2022,
      pd_authors = [john_name_only]\<rparr>"

text \<open>The store after \<open>paper_a\<close> has been created in the empty store.\<close>

definition store_one :: store where
  "store_one = \<lparr>paper_rows = [paper1], author_rows = [author1],
      author_to_paper = [(1, 1)], next_paper_id = 2, next_author_id = 2\<rparr>"

text \<open>The store after \<open>paper_b\<close> has been created in \<open>store_one\<close>.\<close>

definition store_two :: store where
  "store_two = \<lparr>paper_rows = [paper1, paper2], author_rows = [author1],
      author_to_paper = [(1, 2), (1, 1)], next_paper_id = 3, next_author_id = 2\<rparr>"

text \<open>
  The store of the list tests: three papers; John Doe and Jane Smith wrote the first,
  Alice Johnson and Bob Lee the second, John Doe and Charlie Brown the third.
\<close>

definition store_three :: store where
  "store_three =
     \<lparr>paper_rows = [paper1, paper2, paper3],
      author_rows =
        [author1, author2,
         \<lparr>a_id = 3, a_name = ''Alice Johnson'', a_email = Some ''alice@example.com'',
           a_affiliation = Some ''University A''\<rparr>,
         \<lparr>a_id = 4, a_name = ''Bob Lee'', a_email = Some ''bob@example.com'',
           a_affiliation = Some ''University B''\<rparr>,
         \<lparr>a_id = 5, a_name = ''Charlie Brown'', a_email = Some ''charlie@example.com'',
           a_affiliation = Some ''University Z''\<rparr>],
      author_to_paper = [(1, 1), (2, 1), (3, 2), (4, 2), (1, 3), (5, 3)],
      next_paper_id = 4, next_author_id = 6\<rparr>"

definition no_filters :: paper_filters where
  "no_filters = \<lparr>f_year = None, f_publishedIn = None, f_author = NoAuthor,
                  f_limit = 10, f_offset = 0\<rparr>"

definition second_page :: paper_filters where
  "second_page = \<lparr>f_year = None, f_publishedIn = None, f_author = NoAuthor,
                   f_limit = 2, f_offset = 1\<rparr>"

definition john_and_charlie :: paper_filters where
  "john_and_charlie = \<lparr>f_year = None, f_publishedIn = None,
      f_author = AuthorArray [''john doe'', ''charlie''], f_limit = 10, f_offset = 0\<rparr>"

definition empty_author_array :: paper_filters where
  "empty_author_array = \<lparr>f_year = None, f_publishedIn = None,
      f_author = AuthorArray [], f_limit = 10, f_offset = 0\<rparr>"

text \<open>The filter that \<open>?author[]=%25\<close> leaves: an array with the one value \<open>%\<close>.\<close>

definition percent_author :: paper_filters where
  "percent_author = \<lparr>f_year = None, f_publishedIn = None,
      f_author = AuthorArray [''%''], f_limit = 10, f_offset = 0\<rparr>"


text \<open>Limit 2 and offset 1 for the list of authors.\<close>

definition authors_second_page :: author_filters where
  "authors_second_page = \<lparr>af_name = None, af_affiliation = None,
                           af_limit = 2, af_offset = 1\<rparr>"

text \<open>The body \<open>{"authors": [null]}\<close>.\<close>

definition null_author_body :: raw_paper where
  "null_author_body =
     \<lparr>r_title = JUndefined, r_publishedIn = JUndefined, r_year = JUndefined,
      r_authors = JArr [JNull]\<rparr>"

text \<open>A body with nothing right: no title, a blank venue, the year 1900, a nameless author.\<close>

definition all_wrong_body :: raw_paper where
  "all_wrong_body =
     \<lparr>r_title = JNull, r_publishedIn = JStr ''  '', r_year = JNum (Fin 1900),
      r_authors = JArr [JObj [(''email'', JStr ''author@mail.com'')],
                        JObj [(''name'', JStr '''')]]\<rparr>"

text \<open>The query strings \<open>?limit=2&offset=1\<close> and \<open>?limit=101\<close>.\<close>

definition query_second_page :: paper_query where
  "query_second_page =
     \<lparr>q_year = None, q_publishedIn = None, q_author = None,
      q_limit = Some (QString ''2''), q_offset = Some (QString ''1'')\<rparr>"

definition query_limit_101 :: paper_query where
  "query_limit_101 =
     \<lparr>q_year = None, q_publishedIn = None, q_author = None,
      q_limit = Some (QString ''101''), q_offset = None\<rparr>"

text \<open>The query string of \<open>GET /api/authors\<close> without any parameter.\<close>

definition query_no_parameters :: author_query where
  "query_no_parameters =
     \<lparr>aq_name = None, aq_affiliation = None, aq_limit = None, aq_offset = None\<rparr>"

text \<open>The query strings \<open>?limit=2&offset=1\<close> and \<open>?offset=-1\<close> of \<open>GET /api/authors\<close>.\<close>

definition query_authors_second_page :: author_query where
  "query_authors_second_page =
     \<lparr>aq_name = None, aq_affiliation = None,
      aq_limit = Some (QString ''2''), aq_offset = Some (QString ''1'')\<rparr>"

definition query_offset_minus_1 :: author_query where
  "query_offset_minus_1 =
     \<lparr>aq_name = None, aq_affiliation = None,
      aq_limit = None, aq_offset = Some (QString ''-1'')\<rparr>"

section \<open>Deleting a paper\<close>

lemma deletePaper_present:
  assumes "paper_exists s pid"
  shows "deletePaper s pid =
    (Inr (), s\<lparr>paper_rows := filter (\<lambda>p. p_id p \<noteq> pid) (paper_rows s),
               author_to_paper := filter (\<lambda>l. snd l \<noteq> pid) (author_to_paper s)\<rparr>)"
  using assms by (simp add: deletePaper_def)

text \<open>
  Claim C8. For every store and every identifier of a paper in it, \<open>deletePaper\<close>
  succeeds, removes exactly the rows of that paper and exactly the links of that paper,
  and leaves the table of authors and every link to another paper as they were.
\<close>

theorem deletePaper_frame:
  assumes "paper_exists s pid"
  shows "\<exists>s'. deletePaper s pid = (Inr (), s')
           \<and> author_rows s' = author_rows s
           \<and> paper_rows s' = filter (\<lambda>p. p_id p \<noteq> pid) (paper_rows s)
           \<and> set (author_to_paper s') = {l \<in> set (author_to_paper s). snd l \<noteq> pid}
           \<and> (\<forall>q. q \<noteq> pid \<longrightarrow> authors_of s' q = authors_of s q)"
proof -
  let ?s' = "s\<lparr>paper_rows := filter (\<lambda>p. p_id p \<noteq> pid) (paper_rows s),
               author_to_paper := filter (\<lambda>l. snd l \<noteq> pid) (author_to_paper s)\<rparr>"
  have run: "deletePaper s pid = (Inr (), ?s')"
    using assms by (rule deletePaper_present)
  have other: "authors_of ?s' q = authors_of s q" if "q \<noteq> pid" for q
    using that by (simp add: authors_of_def)
  have "author_rows ?s' = author_rows s"
    by simp
  moreover have "paper_rows ?s' = filter (\<lambda>p. p_id p \<noteq> pid) (paper_rows s)"
    by simp
  moreover have "set (author_to_paper ?s') = {l \<in> set (author_to_paper s). snd l \<noteq> pid}"
    by auto
  ultimately show ?thesis
    using run other by blast
qed

theorem deletePaper_frame_witness:
  "paper_exists store_shared 1
   \<and> (\<exists>s'. deletePaper store_shared 1 = (Inr (), s')
         \<and> author_rows s' = [author1, author2]
         \<and> paper_rows s' = [paper2]
         \<and> set (author_to_paper s') = {(1, 2)}
         \<and> authors_of s' 2 = authors_of store_shared 2)"
proof -
  have h: "paper_exists store_shared 1"
    by (simp add: paper_exists_def store_shared_def paper1_def)
  obtain s' where run: "deletePaper store_shared 1 = (Inr (), s')"
    and a: "author_rows s' = author_rows store_shared"
    and p: "paper_rows s' = filter (\<lambda>p. p_id p \<noteq> 1) (paper_rows store_shared)"
    and l: "set (author_to_paper s') = {l \<in> set (author_to_paper store_shared). snd l \<noteq> 1}"
    and o: "\<forall>q. q \<noteq> 1 \<longrightarrow> authors_of s' q = authors_of store_shared q"
    using deletePaper_frame [OF h] by blast
  have f1: "author_rows s' = [author1, author2]"
    unfolding a by (simp add: store_shared_def)
  have f2: "paper_rows s' = [paper2]"
    unfolding p by (simp add: store_shared_def paper1_def paper2_def)
  have f3: "set (author_to_paper s') = {(1, 2)}"
    unfolding l by (auto simp: store_shared_def)
  have f4: "authors_of s' 2 = authors_of store_shared 2"
    using o by simp
  show ?thesis
    by (intro conjI exI [of _ s']) (rule h run f1 f2 f3 f4)+
qed

section \<open>Deleting an author\<close>

lemma papersWithSoleAuthor_nonempty:
  assumes "p \<in> set (paper_rows s)"
    and "\<forall>a \<in> set (authors_of s (p_id p)). a_id a = aid"
  shows "0 < length (papersWithSoleAuthor s aid)"
proof -
  have "p \<in> set (papersWithSoleAuthor s aid)"
    using assms by (simp add: papersWithSoleAuthor_def)
  then show ?thesis
    by (cases "papersWithSoleAuthor s aid") auto
qed

text \<open>
  Claim C10. In every store that holds a paper with no linked author, \<open>deleteAuthor\<close>
  refuses every identifier with the sole-author error and changes nothing: the paper
  passes the \<open>every\<close> filter of the guard whatever the identifier is.
\<close>

theorem deleteAuthor_refused_by_authorless_paper:
  assumes "p \<in> set (paper_rows s)" and "authors_of s (p_id p) = []"
  shows "deleteAuthor s aid = (Inl (Error sole_author_message), s)"
proof -
  have "\<forall>a \<in> set (authors_of s (p_id p)). a_id a = aid"
    using assms(2) by simp
  with assms(1) have "0 < length (papersWithSoleAuthor s aid)"
    by (rule papersWithSoleAuthor_nonempty)
  then show ?thesis
    by (simp add: deleteAuthor_def)
qed

theorem deleteAuthor_refused_by_authorless_paper_witness:
  "paper1 \<in> set (paper_rows store_authorless)
   \<and> authors_of store_authorless (p_id paper1) = []
   \<and> (1, p_id paper1) \<notin> set (author_to_paper store_authorless)
   \<and> deleteAuthor store_authorless 1 = (Inl (Error sole_author_message), store_authorless)"
proof -
  have h1: "paper1 \<in> set (paper_rows store_authorless)"
    by (simp add: store_authorless_def)
  have h2: "authors_of store_authorless (p_id paper1) = []"
    by (simp add: authors_of_def store_authorless_def)
  have h3: "(1, p_id paper1) \<notin> set (author_to_paper store_authorless)"
    by (simp add: store_authorless_def)
  show ?thesis
    by (intro conjI) (rule h1 h2 h3 deleteAuthor_refused_by_authorless_paper [OF h1 h2])+
qed

text \<open>
  The guard does what the specification asks of it on the stores in which every paper
  has an author: a sole author is refused and nothing changes; an author who exists and
  is nowhere the sole author is removed together with the author's links.
\<close>

lemma deleteAuthor_sole_author:
  assumes "sole_author s aid"
  shows "deleteAuthor s aid = (Inl (Error sole_author_message), s)"
proof -
  obtain p where p: "p \<in> set (paper_rows s)"
    and only: "set (map a_id (authors_of s (p_id p))) = {aid}"
    using assms by (auto simp: sole_author_def)
  have "\<forall>a \<in> set (authors_of s (p_id p)). a_id a = aid"
    using only by auto
  with p have "0 < length (papersWithSoleAuthor s aid)"
    by (rule papersWithSoleAuthor_nonempty)
  then show ?thesis
    by (simp add: deleteAuthor_def)
qed

lemma papersWithSoleAuthor_empty:
  assumes "\<not> sole_author s aid"
    and "\<forall>p \<in> set (paper_rows s). authors_of s (p_id p) \<noteq> []"
  shows "papersWithSoleAuthor s aid = []"
proof -
  have "\<not> (\<forall>a \<in> set (authors_of s (p_id p)). a_id a = aid)"
    if p: "p \<in> set (paper_rows s)" for p
  proof
    assume all: "\<forall>a \<in> set (authors_of s (p_id p)). a_id a = aid"
    from assms(2) p have "authors_of s (p_id p) \<noteq> []" by blast
    then obtain a where "a \<in> set (authors_of s (p_id p))"
      by (cases "authors_of s (p_id p)") auto
    with all have "set (map a_id (authors_of s (p_id p))) = {aid}"
      by auto
    with p assms(1) show False
      by (auto simp: sole_author_def)
  qed
  then have "filter (\<lambda>p. \<forall>a \<in> set (authors_of s (p_id p)). a_id a = aid) (paper_rows s) = []"
    by (simp add: filter_empty_conv)
  then show ?thesis
    by (simp add: papersWithSoleAuthor_def)
qed

lemma deleteAuthor_removes:
  assumes "\<not> sole_author s aid"
    and "\<forall>p \<in> set (paper_rows s). authors_of s (p_id p) \<noteq> []"
    and "author_exists s aid"
  shows "deleteAuthor s aid =
    (Inr (), s\<lparr>author_rows := filter (\<lambda>a. a_id a \<noteq> aid) (author_rows s),
               author_to_paper := filter (\<lambda>l. fst l \<noteq> aid) (author_to_paper s)\<rparr>)"
  using papersWithSoleAuthor_empty [OF assms(1,2)] assms(3)
  by (simp add: deleteAuthor_def)

lemma deleteAuthor_missing:
  assumes "\<not> sole_author s aid"
    and "\<forall>p \<in> set (paper_rows s). authors_of s (p_id p) \<noteq> []"
    and "\<not> author_exists s aid"
  shows "deleteAuthor s aid = (Inl RecordNotFound, s)"
  using papersWithSoleAuthor_empty [OF assms(1,2)] assms(3)
  by (simp add: deleteAuthor_def)

text \<open>
  Claim C2. The second half of the claim fails on a store with an authorless paper: the
  author below exists and is the sole author of no paper, and \<open>deleteAuthor\<close> refuses to
  delete the author with the sole-author error.
\<close>

theorem deleteAuthor_blocks_unlinked_author:
  "author_exists store_authorless 1
   \<and> \<not> sole_author store_authorless 1
   \<and> deleteAuthor store_authorless 1 = (Inl (Error sole_author_message), store_authorless)"
proof -
  have a: "author_exists store_authorless 1"
    by (simp add: author_exists_def store_authorless_def author1_def)
  have links: "authors_of store_authorless q = []" for q
    by (simp add: authors_of_def store_authorless_def)
  have b: "\<not> sole_author store_authorless 1"
    by (simp add: sole_author_def links)
  have "papersWithSoleAuthor store_authorless 1 = [paper1]"
  proof -
    have "paper_rows store_authorless = [paper1]"
      by (simp add: store_authorless_def)
    then show ?thesis
      by (simp add: papersWithSoleAuthor_def links)
  qed
  then have "deleteAuthor store_authorless 1
      = (Inl (Error sole_author_message), store_authorless)"
    by (simp add: deleteAuthor_def)
  with a b show ?thesis by simp
qed

theorem deleteAuthor_blocks_unlinked_author_witness:
  "fst (deleteAuthor store_authorless 1) = Inl (Error sole_author_message)
   \<and> snd (deleteAuthor store_authorless 1) = store_authorless"
  using deleteAuthor_blocks_unlinked_author by simp

section \<open>Resolving authors and replacing the authors of a paper\<close>


lemma findFirst_author_Some:
  assumes "findFirst_author s c = Some a"
  shows "a \<in> set (author_rows s) \<and> author_where c a
         \<and> (\<forall>b \<in> set (author_rows s). author_where c b \<longrightarrow> a_id a \<le> a_id b)"
proof -
  let ?xs = "sort_key a_id (filter (author_where c) (author_rows s))"
  from assms obtain rest where xs: "?xs = a # rest"
    by (auto simp: findFirst_author_def split: list.splits)
  have "a \<in> set ?xs"
    unfolding xs by simp
  then have mem: "a \<in> set (author_rows s) \<and> author_where c a"
    by simp
  have "sorted (map a_id ?xs)"
    by (rule sorted_sort_key)
  then have low: "\<forall>b \<in> set ?xs. a_id a \<le> a_id b"
    unfolding xs by auto
  have "a_id a \<le> a_id b" if "b \<in> set (author_rows s)" "author_where c b" for b
  proof -
    have "b \<in> set ?xs" using that by simp
    with low show ?thesis by blast
  qed
  with mem show ?thesis by blast
qed

lemma findFirst_author_None:
  "findFirst_author s c = None \<longleftrightarrow> (\<forall>b \<in> set (author_rows s). \<not> author_where c b)"
proof -
  let ?ys = "filter (author_where c) (author_rows s)"
  have "findFirst_author s c = None \<longleftrightarrow> sort_key a_id ?ys = []"
    by (simp add: findFirst_author_def split: list.splits)
  also have "\<dots> \<longleftrightarrow> set (sort_key a_id ?ys) = {}"
    by (simp only: set_empty)
  also have "\<dots> \<longleftrightarrow> (\<forall>b \<in> set (author_rows s). \<not> author_where c b)"
    by auto
  finally show ?thesis .
qed

lemma resolveAuthor_frame:
  assumes "resolveAuthor s c = (i, s')"
  shows "paper_rows s' = paper_rows s \<and> author_to_paper s' = author_to_paper s
         \<and> next_paper_id s' = next_paper_id s
         \<and> set (author_rows s) \<subseteq> set (author_rows s')
         \<and> i \<in> a_id ` set (author_rows s')"
proof (cases "findFirst_author s c")
  case None
  with assms show ?thesis
    by (auto simp: resolveAuthor_def create_author_def Let_def)
next
  case (Some a)
  then have "a \<in> set (author_rows s)"
    using findFirst_author_Some by blast
  with Some assms show ?thesis
    by (auto simp: resolveAuthor_def)
qed






text \<open>
  What the resolver does on a candidate none of whose fields is absent is what the
  specification asks: the lookup condition is the identity of authors, the match with
  the lowest identifier is taken, a missing author is created with exactly the
  candidate's fields, and resolving the same candidate again yields the same identifier.
\<close>

lemma author_where_exact:
  assumes "in_email c \<noteq> Undefined" and "in_affiliation c \<noteq> Undefined"
  shows "author_where c a = same_identity c a"
proof -
  have "field_where f col = (col = column_of f)" if "f \<noteq> Undefined" for f col
    using that by (cases f) auto
  with assms show ?thesis
    by (simp add: author_where_def same_identity_def)
qed

lemma author_where_created:
  "author_where c \<lparr>a_id = i, a_name = in_name c, a_email = column_of (in_email c),
                     a_affiliation = column_of (in_affiliation c)\<rparr>"
proof -
  have "field_where f (column_of f)" for f
    by (cases f) auto
  then show ?thesis
    by (simp add: author_where_def)
qed

lemma resolveAuthor_found:
  assumes "findFirst_author s c = Some a"
  shows "resolveAuthor s c = (a_id a, s)"
    and "a \<in> set (author_rows s)"
    and "author_where c a"
    and "\<forall>b \<in> set (author_rows s). author_where c b \<longrightarrow> a_id a \<le> a_id b"
  using assms findFirst_author_Some [OF assms] by (simp_all add: resolveAuthor_def)

lemma resolveAuthor_created:
  assumes "\<forall>b \<in> set (author_rows s). \<not> author_where c b"
  shows "resolveAuthor s c =
    (next_author_id s,
     s\<lparr>author_rows := author_rows s @
          [\<lparr>a_id = next_author_id s, a_name = in_name c, a_email = column_of (in_email c),
            a_affiliation = column_of (in_affiliation c)\<rparr>],
       next_author_id := Suc (next_author_id s)\<rparr>)"
proof -
  have "findFirst_author s c = None"
    using assms by (simp add: findFirst_author_None)
  then show ?thesis
    by (simp add: resolveAuthor_def create_author_def Let_def)
qed

lemma resolveAuthor_again:
  assumes "resolveAuthor s c = (i, s1)"
  shows "resolveAuthor s1 c = (i, s1)"
proof (cases "findFirst_author s c")
  case (Some a)
  with assms show ?thesis
    by (auto simp: resolveAuthor_def)
next
  case None
  define a where "a = \<lparr>a_id = next_author_id s, a_name = in_name c,
    a_email = column_of (in_email c), a_affiliation = column_of (in_affiliation c)\<rparr>"
  have none: "\<forall>b \<in> set (author_rows s). \<not> author_where c b"
    using None by (simp add: findFirst_author_None)
  have "(i, s1) = (next_author_id s,
      s\<lparr>author_rows := author_rows s @ [a], next_author_id := Suc (next_author_id s)\<rparr>)"
    unfolding a_def assms [symmetric] by (rule resolveAuthor_created [OF none])
  then have i: "i = next_author_id s"
    and s1: "s1 = s\<lparr>author_rows := author_rows s @ [a],
                      next_author_id := Suc (next_author_id s)\<rparr>"
    by blast+
  have "author_where c a"
    unfolding a_def by (rule author_where_created)
  with none have "filter (author_where c) (author_rows s1) = [a]"
    by (simp add: s1)
  then have "findFirst_author s1 c = Some a"
    by (simp add: findFirst_author_def)
  then have "resolveAuthor s1 c = (a_id a, s1)"
    by (simp add: resolveAuthor_def)
  then show ?thesis
    by (simp add: i a_def)
qed

text \<open>
  On a store whose authors have distinct identifiers below the next one of the sequence,
  two candidates without absent fields that differ in name, e-mail address or affiliation
  are resolved to different authors.
\<close>

lemma resolveAuthor_row:
  assumes "resolveAuthor s c = (i, s1)"
  shows "\<exists>a \<in> set (author_rows s1). a_id a = i \<and> author_where c a"
proof (cases "findFirst_author s c")
  case (Some a)
  from resolveAuthor_found [OF Some] assms show ?thesis
    by auto
next
  case None
  then have none: "\<forall>b \<in> set (author_rows s). \<not> author_where c b"
    by (simp add: findFirst_author_None)
  from resolveAuthor_created [OF none] assms author_where_created [of c "next_author_id s"]
  show ?thesis
    by auto
qed

lemma resolveAuthor_unique_ids:
  assumes "resolveAuthor s c = (i, s1)" and "unique_ids s"
  shows "unique_ids s1"
proof (cases "findFirst_author s c")
  case (Some a)
  from resolveAuthor_found(1) [OF Some] assms show ?thesis
    by auto
next
  case None
  then have none: "\<forall>b \<in> set (author_rows s). \<not> author_where c b"
    by (simp add: findFirst_author_None)
  from resolveAuthor_created [OF none] assms(1)
  have s1: "author_rows s1 = author_rows s @
          [\<lparr>a_id = next_author_id s, a_name = in_name c, a_email = column_of (in_email c),
            a_affiliation = column_of (in_affiliation c)\<rparr>]"
    and n1: "next_author_id s1 = Suc (next_author_id s)"
    by auto
  show ?thesis
    using assms(2) unfolding unique_ids_def s1 n1 by (auto simp: less_Suc_eq)
qed

lemma different_identity_different_author:
  assumes "unique_ids s"
    and "resolveAuthor s c = (i, s1)" and "resolveAuthor s1 c' = (j, s2)"
    and "in_email c \<noteq> Undefined" and "in_affiliation c \<noteq> Undefined"
    and "in_email c' \<noteq> Undefined" and "in_affiliation c' \<noteq> Undefined"
    and "(in_name c, column_of (in_email c), column_of (in_affiliation c))
           \<noteq> (in_name c', column_of (in_email c'), column_of (in_affiliation c'))"
  shows "i \<noteq> j"
proof
  assume eq: "i = j"
  obtain a where a: "a \<in> set (author_rows s1)" "a_id a = i" "author_where c a"
    using resolveAuthor_row [OF assms(2)] by blast
  obtain b where b: "b \<in> set (author_rows s2)" "a_id b = j" "author_where c' b"
    using resolveAuthor_row [OF assms(3)] by blast
  have "set (author_rows s1) \<subseteq> set (author_rows s2)"
    using resolveAuthor_frame [OF assms(3)] by blast
  with a(1) have a2: "a \<in> set (author_rows s2)"
    by blast
  have "unique_ids s2"
    using assms(1) resolveAuthor_unique_ids [OF assms(2)] resolveAuthor_unique_ids [OF assms(3)]
    by blast
  then have "inj_on a_id (set (author_rows s2))"
    by (simp add: unique_ids_def distinct_map)
  with a2 b(1) a(2) b(2) eq have "a = b"
    by (auto dest: inj_onD)
  moreover have "same_identity c a"
    using a(3) author_where_exact [OF assms(4,5)] by simp
  moreover have "same_identity c' b"
    using b(3) author_where_exact [OF assms(6,7)] by simp
  ultimately show False
    using assms(8) by (auto simp: same_identity_def)
qed

text \<open>
  Claim C3. A candidate with an absent field is linked to a record that differs from it
  in that field: after a paper by John Doe with an e-mail address and an affiliation,
  a paper by a John Doe given by name only is linked to the same author record, and no
  author is created.
\<close>

theorem createPaper_absent_field_matches_any:
  "createPaper store_empty paper_a = (Inr (paper1, [author1]), store_one)
   \<and> createPaper store_one paper_b = (Inr (paper2, [author1]), store_two)
   \<and> \<not> same_identity john_name_only author1"
proof -
  have none: "\<forall>b \<in> set (author_rows store_empty). \<not> author_where john_full b"
    by (simp add: store_empty_def)
  have r1: "resolveAuthors store_empty [john_full]
      = ([1], store_empty\<lparr>author_rows := [author1], next_author_id := 2\<rparr>)"
    using resolveAuthor_created [OF none]
    by (simp add: store_empty_def john_full_def author1_def)
  have c1: "createPaper store_empty paper_a = (Inr (paper1, [author1]), store_one)"
    unfolding createPaper_def paper_a_def
    by (simp add: r1 del: resolveAuthors.simps)
      (simp add: store_empty_def store_one_def paper1_def connect_def authors_of_def author1_def
        Let_def)
  have "filter (author_where john_name_only) (author_rows store_one) = [author1]"
    by (simp add: store_one_def author_where_def john_name_only_def author1_def)
  then have "findFirst_author store_one john_name_only = Some author1"
    by (simp add: findFirst_author_def)
  then have r2: "resolveAuthors store_one [john_name_only] = ([1], store_one)"
    by (simp add: resolveAuthor_def author1_def)
  have c2: "createPaper store_one paper_b = (Inr (paper2, [author1]), store_two)"
    unfolding createPaper_def paper_b_def
    by (simp add: r2 del: resolveAuthors.simps)
      (simp add: store_one_def store_two_def paper2_def connect_def authors_of_def author1_def
        Let_def)
  have c3: "\<not> same_identity john_name_only author1"
    by (simp add: same_identity_def john_name_only_def author1_def)
  from c1 c2 c3 show ?thesis by simp
qed

theorem createPaper_absent_field_matches_any_witness:
  "map a_id (snd (projr (fst (createPaper store_one paper_b)))) = [1]
   \<and> author_rows (snd (createPaper store_one paper_b)) = [author1]
   \<and> a_email author1 \<noteq> column_of (in_email john_name_only)"
  using createPaper_absent_field_matches_any
  by (simp add: store_two_def author1_def john_name_only_def)

section \<open>Validating the body of a paper\<close>

text \<open>
  Whenever \<open>validatePaperInput\<close> returns, its list is the messages of title, venue, year
  and authors in this order, each field judged on its own; the two messages of the year
  exclude each other, 1900 is refused and 1901 accepted; the authors contribute at most one
  message. It returns whenever no element of the authors is \<open>null\<close> or \<open>undefined\<close>.
\<close>

lemma author_name_errors_once:
  assumes "author_name_errors xs = Inr messages"
  shows "messages = [] \<or> messages = [''Author name is required'']"
  using assms
  by (induction xs) (auto split: sum.splits if_splits)

lemma author_name_errors_returns:
  assumes "list_all (\<lambda>a. a \<noteq> JNull \<and> a \<noteq> JUndefined) xs"
  shows "\<exists>messages. author_name_errors xs = Inr messages"
  using assms
proof (induction xs)
  case Nil
  then show ?case by simp
next
  case (Cons a xs)
  then have "a \<noteq> JNull" "a \<noteq> JUndefined"
    by simp_all
  then obtain name where "destructure_name a = Inr name"
    by (cases a) (simp_all add: destructure_name_def)
  with Cons show ?case
    by auto
qed

lemma year_errors_cases:
  "year_errors y = [''Published year is required'']
   \<or> year_errors y = [''Valid year after 1900 is required'']
   \<or> year_errors y = []"
  by (simp add: year_errors_def)

lemma year_errors_exclusive:
  "\<not> (''Published year is required'' \<in> set (year_errors y)
       \<and> ''Valid year after 1900 is required'' \<in> set (year_errors y))"
  by (simp add: year_errors_def)

lemma year_errors_missing:
  "year_errors JNull = [''Published year is required'']"
  "year_errors JUndefined = [''Published year is required'']"
  by (simp_all add: year_errors_def)

lemma year_errors_integer:
  "year_errors (JNum (Fin (of_int k)))
     = (if 1900 < k then [] else [''Valid year after 1900 is required''])"
  by (simp add: year_errors_def isIntegerGreaterThan1900_def)

lemma year_errors_boundary:
  "year_errors (JNum (Fin 1900)) = [''Valid year after 1900 is required'']"
  "year_errors (JNum (Fin 1901)) = []"
  using year_errors_integer [of 1900] year_errors_integer [of 1901] by simp_all

lemma validatePaperInput_collects:
  assumes "validatePaperInput paper = Inr errors"
  shows "\<exists>messages. authors_errors (r_authors paper) = Inr messages
           \<and> errors = title_errors (r_title paper) @ publishedIn_errors (r_publishedIn paper)
                        @ year_errors (r_year paper) @ messages
           \<and> (messages = [] \<or> messages = [''Author name is required'']
                \<or> messages = [''At least one author is required''])"
proof -
  from assms obtain messages where m: "authors_errors (r_authors paper) = Inr messages"
    and e: "errors = title_errors (r_title paper) @ publishedIn_errors (r_publishedIn paper)
                        @ year_errors (r_year paper) @ messages"
    by (auto simp: validatePaperInput_def split: sum.splits)
  have "messages = [] \<or> messages = [''Author name is required'']
      \<or> messages = [''At least one author is required'']"
  proof (cases "\<exists>a rest. r_authors paper = JArr (a # rest)")
    case True
    then obtain a rest where "r_authors paper = JArr (a # rest)"
      by blast
    with m have "author_name_errors (a # rest) = Inr messages"
      by (simp add: authors_errors_def)
    then show ?thesis
      using author_name_errors_once by blast
  next
    case False
    then have "authors_errors (r_authors paper) = Inr [''At least one author is required'']"
      by (auto simp: authors_errors_def split: jsval.splits list.splits)
    with m show ?thesis by simp
  qed
  with m e show ?thesis by blast
qed

lemma validatePaperInput_returns:
  assumes "\<forall>xs. r_authors paper = JArr xs \<longrightarrow> list_all (\<lambda>a. a \<noteq> JNull \<and> a \<noteq> JUndefined) xs"
  shows "\<exists>errors. validatePaperInput paper = Inr errors"
proof -
  have "\<exists>messages. authors_errors (r_authors paper) = Inr messages"
  proof (cases "\<exists>a rest. r_authors paper = JArr (a # rest)")
    case True
    then obtain a rest where ar: "r_authors paper = JArr (a # rest)"
      by blast
    with assms have "list_all (\<lambda>a. a \<noteq> JNull \<and> a \<noteq> JUndefined) (a # rest)"
      by blast
    then obtain messages where "author_name_errors (a # rest) = Inr messages"
      using author_name_errors_returns by blast
    then show ?thesis
      by (simp add: ar authors_errors_def del: author_name_errors.simps)
  next
    case False
    then show ?thesis
      by (auto simp: authors_errors_def split: jsval.splits list.splits)
  qed
  then show ?thesis
    by (auto simp: validatePaperInput_def)
qed

lemma validatePaperInput_all_wrong:
  "validatePaperInput all_wrong_body =
     Inr [''Title is required'', ''Published venue is required'',
          ''Valid year after 1900 is required'', ''Author name is required'']"
  by code_simp

text \<open>
  Claim C6. On the body \<open>{"authors": [null]}\<close> the loop over the authors throws a
  \<open>TypeError\<close> when it destructures \<open>null\<close>, and \<open>validatePaperInput\<close> returns no list:
  the three messages it had collected for title, venue and year are lost.
\<close>

theorem validatePaperInput_throws_on_null_author:
  "validatePaperInput null_author_body = Inl TypeError
   \<and> title_errors (r_title null_author_body) = [''Title is required'']
   \<and> publishedIn_errors (r_publishedIn null_author_body) = [''Published venue is required'']
   \<and> year_errors (r_year null_author_body) = [''Published year is required'']"
  by (simp add: validatePaperInput_def null_author_body_def authors_errors_def
      destructure_name_def title_errors_def publishedIn_errors_def year_errors_def
      isNonEmptyStringAfterTrim_def)

theorem validatePaperInput_throws_on_null_author_witness:
  "validatePaperInput null_author_body \<noteq> Inr [''Title is required'',
      ''Published venue is required'', ''Published year is required'',
      ''Author name is required'']"
  using validatePaperInput_throws_on_null_author by simp

section \<open>Converting strings to Numbers\<close>

lemma round_half_even_of_int: "round_half_even (of_int n) = n"
  by (simp add: round_half_even_def)

lemma ilog2_of_int_le:
  assumes "0 < n" and "n < 2 ^ 53"
  shows "ilog2 (of_int n) \<le> 52"
proof -
  have "bitlen n \<le> 53"
    using assms by (simp add: bitlen_le_iff_power)
  moreover have "bitlen 1 = 1"
    by (simp add: bitlen_alt_def)
  ultimately show ?thesis
    by (simp add: ilog2_def Let_def)
qed

lemma toDouble_small_nat:
  assumes "0 < n" and "n < 2 ^ 53"
  shows "toDouble (of_int n) = Fin (of_int n)"
proof -
  define e where "e = max (ilog2 (of_int n)) (- 1022)"
  define m where "m = nat (52 - e)"
  have e: "e \<le> 52"
    using ilog2_of_int_le [OF assms] by (simp add: e_def)
  then have u: "(2::rat) powi (e - 52) = 1 / 2 ^ m"
    by (simp add: m_def power_int_def field_simps)
  have "(of_int n :: rat) / (1 / 2 ^ m) = of_int (n * 2 ^ m)"
    by simp
  then have r: "round_half_even (of_int n / (2 powi (e - 52))) = n * 2 ^ m"
    unfolding u by (simp only: round_half_even_of_int)
  have v: "(of_int (n * 2 ^ m) :: rat) * (2 powi (e - 52)) = of_int n"
    unfolding u by simp
  have small: "\<not> (2 ^ 1024 \<le> (of_int n :: rat))"
  proof -
    have "(of_int n :: rat) < 2 ^ 53"
      using assms(2) by (metis of_int_less_numeral_power_cancel_iff)
    also have "\<dots> < 2 ^ 1024"
      by (rule power_strict_increasing) simp_all
    finally show ?thesis by simp
  qed
  have pos: "(0::rat) < of_int n"
    using assms(1) by simp
  then have abs: "\<bar>of_int n :: rat\<bar> = of_int n"
    by simp
  show ?thesis
    unfolding toDouble_def abs Let_def e_def [symmetric] r v
    using pos small by simp
qed

lemma toDouble_minus: "toDouble (- r) = negate (toDouble r)"
proof (cases "r = 0")
  case True
  then show ?thesis by (simp add: toDouble_def)
next
  case False
  define v :: rat where "v = of_int (round_half_even (\<bar>r\<bar> / 2 powi (max (ilog2 \<bar>r\<bar>) (- 1022) - 52)))
      * 2 powi (max (ilog2 \<bar>r\<bar>) (- 1022) - 52)"
  have pos: "toDouble r
      = (if 2 ^ 1024 \<le> v then (if 0 < r then PosInf else NegInf) else Fin (sgn r * v))"
    unfolding toDouble_def v_def Let_def using False by simp
  have neg: "toDouble (- r)
      = (if 2 ^ 1024 \<le> v then (if 0 < - r then PosInf else NegInf) else Fin (sgn (- r) * v))"
    unfolding toDouble_def v_def Let_def using False by simp
  show ?thesis
  proof (cases "0 < r")
    case True
    then show ?thesis
      unfolding pos neg by simp
  next
    case nonpos: False
    with False have "r < 0" by simp
    then show ?thesis
      unfolding pos neg by simp
  qed
qed

lemma toDouble_of_int:
  assumes "\<bar>k\<bar> < 2 ^ 53"
  shows "toDouble (of_int k) = Fin (of_int k)"
proof (cases "k = 0")
  case True
  then show ?thesis by (simp add: toDouble_def)
next
  case False
  show ?thesis
  proof (cases "0 < k")
    case True
    with assms show ?thesis
      by (simp add: toDouble_small_nat)
  next
    case neg: False
    with False have k: "k < 0" by simp
    define n where "n = - k"
    have n: "0 < n" "n < 2 ^ 53"
      using k assms by (simp_all add: n_def)
    have "toDouble (of_int k) = toDouble (- of_int n)"
      by (simp add: n_def)
    also have "\<dots> = negate (toDouble (of_int n))"
      by (rule toDouble_minus)
    also have "\<dots> = negate (Fin (of_int n))"
      using n by (simp add: toDouble_small_nat)
    also have "\<dots> = Fin (of_int k)"
      by (simp add: n_def)
    finally show ?thesis .
  qed
qed

text \<open>\<open>ilog2\<close> is the floor of the binary logarithm.\<close>

lemma bitlen_bounds_rat:
  assumes "0 < x"
  shows "(2::rat) powi (bitlen x - 1) \<le> of_int x" and "(of_int x :: rat) < 2 powi (bitlen x)"
proof -
  have b: "0 \<le> bitlen x - 1" "0 \<le> bitlen x"
    using assms bitlen_nonneg [of x] bitlen_eq_zero_iff [of x] by linarith+
  from bitlen_bounds [OF assms]
  have lo: "2 ^ nat (bitlen x - 1) \<le> x" and hi: "x < 2 ^ nat (bitlen x)"
    by simp_all
  have "(of_int (2 ^ nat (bitlen x - 1)) :: rat) \<le> of_int x"
    using lo by (simp only: of_int_le_iff)
  then show "(2::rat) powi (bitlen x - 1) \<le> of_int x"
    using b(1) by (simp add: power_int_nonneg_exp)
  have "(of_int x :: rat) < of_int (2 ^ nat (bitlen x))"
    using hi by (simp only: of_int_less_iff)
  then show "(of_int x :: rat) < 2 powi (bitlen x)"
    using b(2) by (simp add: power_int_nonneg_exp)
qed

lemma ilog2_bounds:
  assumes "0 < r"
  shows "2 powi (ilog2 r) \<le> r" and "r < 2 powi (ilog2 r + 1)"
proof -
  obtain p q where pq: "quotient_of r = (p, q)"
    by (cases "quotient_of r")
  have q: "0 < q"
    using pq by (rule quotient_of_denom_pos)
  have r: "r = of_int p / of_int q"
    using pq by (rule quotient_of_div)
  have p: "0 < p"
    using assms q unfolding r by (simp add: zero_less_divide_iff)
  define k where "k = bitlen p - bitlen q"
  have qr: "r * of_int q = of_int p"
    using q by (simp add: r)
  note P = bitlen_bounds_rat [OF p]
  note Q = bitlen_bounds_rat [OF q]
  have two: "(0::rat) < 2 powi n" for n
    by simp
  have upper: "r < 2 powi (k + 1)"
  proof -
    have "r * 2 powi (bitlen q - 1) \<le> r * of_int q"
      using Q(1) assms by (simp add: mult_left_mono)
    also have "\<dots> < 2 powi (bitlen p)"
      unfolding qr by (rule P(2))
    finally have "r < 2 powi (bitlen p) / 2 powi (bitlen q - 1)"
      using two [of "bitlen q - 1"] by (simp add: pos_less_divide_eq)
    also have "\<dots> = 2 powi (bitlen p - (bitlen q - 1))"
      by (simp add: power_int_diff)
    also have "bitlen p - (bitlen q - 1) = k + 1"
      by (simp add: k_def)
    finally show ?thesis .
  qed
  have lower: "2 powi (k - 1) \<le> r"
  proof -
    have "2 powi (bitlen p - 1) \<le> r * of_int q"
      unfolding qr by (rule P(1))
    also have "\<dots> \<le> r * 2 powi (bitlen q)"
      using Q(2) assms by (simp add: mult_left_mono)
    finally have "2 powi (bitlen p - 1) / 2 powi (bitlen q) \<le> r"
      using two [of "bitlen q"] by (simp add: pos_divide_le_eq)
    moreover have "(2::rat) powi (bitlen p - 1) / 2 powi (bitlen q)
        = 2 powi (bitlen p - 1 - bitlen q)"
      by (simp add: power_int_diff)
    moreover have "bitlen p - 1 - bitlen q = k - 1"
      by (simp add: k_def)
    ultimately show ?thesis by simp
  qed
  have val: "ilog2 r = (if 2 powi k \<le> r then k else k - 1)"
    by (simp add: ilog2_def pq k_def Let_def)
  show "2 powi (ilog2 r) \<le> r"
    using lower by (simp add: val)
  show "r < 2 powi (ilog2 r + 1)"
    using upper by (simp add: val not_le)
qed

lemma ilog2_unique:
  assumes "2 powi k \<le> r" and "r < 2 powi (k + 1)"
  shows "ilog2 r = k"
proof -
  have pos: "0 < r"
    using assms(1) zero_less_power_int [of "2::rat" k] by linarith
  note b = ilog2_bounds [OF pos]
  have mono: "i < j" if "(2::rat) powi i < 2 powi j" for i j :: int
  proof (rule ccontr)
    assume "\<not> i < j"
    then have "j \<le> i" by simp
    then have "(2::rat) powi j \<le> 2 powi i"
      by (rule power_int_increasing) simp
    with that show False by simp
  qed
  have "(2::rat) powi k < 2 powi (ilog2 r + 1)"
    using assms(1) b(2) by linarith
  then have "k < ilog2 r + 1"
    by (rule mono)
  moreover have "(2::rat) powi (ilog2 r) < 2 powi (k + 1)"
    using assms(2) b(1) by linarith
  then have "ilog2 r < k + 1"
    by (rule mono)
  ultimately show ?thesis
    by simp
qed

lemma round_half_even_floor:
  shows "\<lfloor>x\<rfloor> \<le> round_half_even x" "round_half_even x \<le> \<lfloor>x\<rfloor> + 1"
  by (simp_all add: round_half_even_def Let_def)

lemma round_half_even_ge:
  assumes "of_int N \<le> x"
  shows "N \<le> round_half_even x"
proof -
  have "N \<le> \<lfloor>x\<rfloor>"
    using assms by (simp add: le_floor_iff)
  then show ?thesis
    using round_half_even_floor(1) [of x] by linarith
qed

lemma round_half_even_le:
  assumes "x < of_int N + 1 / 2"
  shows "round_half_even x \<le> N"
proof (cases "\<lfloor>x\<rfloor> < N")
  case True
  then show ?thesis
    using round_half_even_floor(2) [of x] by linarith
next
  case False
  have "of_int \<lfloor>x\<rfloor> \<le> x"
    by simp
  with assms have "(of_int \<lfloor>x\<rfloor> :: rat) < of_int N + 1"
    by linarith
  then have "\<lfloor>x\<rfloor> \<le> N"
    by linarith
  with False have f: "\<lfloor>x\<rfloor> = N"
    by simp
  with assms have "x - of_int \<lfloor>x\<rfloor> < 1 / 2"
    by simp
  then show ?thesis
    by (simp add: round_half_even_def Let_def f)
qed

lemma round_half_even_tie_up:
  assumes "of_int N - 1 / 2 \<le> x" and "even N"
  shows "N \<le> round_half_even x"
proof (cases "N \<le> \<lfloor>x\<rfloor>")
  case True
  then show ?thesis
    using round_half_even_floor(1) [of x] by linarith
next
  case False
  have "(of_int N :: rat) - 1 < of_int \<lfloor>x\<rfloor> + 1"
    using assms(1) floor_correct [of x] by linarith
  then have "N - 1 \<le> \<lfloor>x\<rfloor>"
    by linarith
  with False have f: "\<lfloor>x\<rfloor> = N - 1"
    by simp
  then have odd: "odd \<lfloor>x\<rfloor>"
    using assms(2) by simp
  have "1 / 2 \<le> x - of_int \<lfloor>x\<rfloor>"
    using assms(1) by (simp add: f)
  then have "round_half_even x = \<lfloor>x\<rfloor> + 1"
    using odd by (simp add: round_half_even_def Let_def)
  then show ?thesis
    by (simp add: f)
qed

lemma power_int_less_cancel:
  fixes i j :: int
  assumes "(2::rat) powi i < 2 powi j"
  shows "i < j"
proof (rule ccontr)
  assume "\<not> i < j"
  then have "j \<le> i" by simp
  then have "(2::rat) powi j \<le> 2 powi i"
    by (rule power_int_increasing) simp
  with assms show False by simp
qed

text \<open>
  An integer from \<open>2\<^sup>5\<^sup>3\<close> on is rounded to a multiple of a power of two, which is an
  integer again.
\<close>

lemma toDouble_large_nat:
  assumes "2 ^ 53 \<le> n"
  defines "e \<equiv> ilog2 (of_int n)"
  defines "m \<equiv> round_half_even (of_int n / 2 powi (e - 52))"
  shows "53 \<le> e" and "2 ^ 52 \<le> m"
    and "toDouble (of_int n) =
           (if (2::rat) ^ 1024 \<le> of_int m * 2 powi (e - 52) then PosInf
            else Fin (of_int (m * 2 ^ nat (e - 52))))"
proof -
  define a :: rat where "a = of_int n"
  have "(of_int (2 ^ 53) :: rat) \<le> of_int n"
    using assms(1) by (simp only: of_int_le_iff)
  then have a53: "2 ^ 53 \<le> a"
    by (simp add: a_def)
  have "(0::rat) < 2 ^ 53"
    by simp
  with a53 have pos: "0 < a"
    by linarith
  have lo: "2 powi e \<le> a" and hi: "a < 2 powi (e + 1)"
    unfolding e_def a_def [symmetric] using ilog2_bounds [OF pos] by simp_all
  show e53: "53 \<le> e"
  proof -
    have "(2::rat) powi 53 < 2 powi (e + 1)"
      using a53 hi by simp
    then have "53 < e + 1"
      by (rule power_int_less_cancel)
    then show ?thesis by simp
  qed
  have u: "(2::rat) powi (e - 52) = of_int (2 ^ nat (e - 52))"
    using e53 by (simp add: power_int_nonneg_exp)
  have upos: "(0::rat) < 2 powi (e - 52)"
    by simp
  have "(2::rat) powi e / 2 powi (e - 52) \<le> a / 2 powi (e - 52)"
    using lo upos by (simp add: divide_right_mono)
  moreover have "(2::rat) powi e / 2 powi (e - 52) = 2 powi (e - (e - 52))"
    by (simp add: power_int_diff)
  ultimately have "(of_int (2 ^ 52) :: rat) \<le> a / 2 powi (e - 52)"
    by simp
  then show m52: "2 ^ 52 \<le> m"
    unfolding m_def a_def [symmetric] by (rule round_half_even_ge)
  have mx: "max e (- 1022) = e"
    using e53 by simp
  have "toDouble a =
      (if (2::rat) ^ 1024 \<le> of_int m * 2 powi (e - 52) then PosInf
       else Fin (of_int m * 2 powi (e - 52)))"
    using pos
    unfolding toDouble_def Let_def m_def e_def a_def [symmetric]
    by (simp add: mx [unfolded e_def a_def [symmetric]] del: power_numeral)
  then show "toDouble (of_int n) =
           (if (2::rat) ^ 1024 \<le> of_int m * 2 powi (e - 52) then PosInf
            else Fin (of_int (m * 2 ^ nat (e - 52))))"
    unfolding a_def by (simp add: u del: power_numeral)
qed

lemma toDouble_nat_finite:
  assumes "2 ^ 53 \<le> n" and "n < 2 ^ 1024 - 2 ^ 970"
  shows "\<exists>k. 0 < k \<and> toDouble (of_int n) = Fin (of_int k)"
proof -
  define e where "e = ilog2 (of_int n)"
  define m where "m = round_half_even (of_int n / 2 powi (e - 52))"
  define a :: rat where "a = of_int n"
  note large = toDouble_large_nat [OF assms(1), folded e_def, folded m_def]
  have "(of_int (2 ^ 53) :: rat) \<le> of_int n"
    using assms(1) by (simp only: of_int_le_iff)
  then have pos: "0 < a"
    by (simp add: a_def)
  have lo: "2 powi e \<le> a" and hi: "a < 2 powi (e + 1)"
    unfolding e_def a_def [symmetric] using ilog2_bounds [OF pos] by simp_all
  have "(of_int n :: rat) < of_int (2 ^ 1024 - 2 ^ 970)"
    using assms(2) by (simp only: of_int_less_iff)
  then have top: "a < 2 ^ 1024 - 2 ^ 970"
    by (simp add: a_def)
  have "(2::rat) powi e < 2 powi 1024"
    using lo top by simp
  then have e1024: "e < 1024"
    by (rule power_int_less_cancel)
  have upos: "(0::rat) < 2 powi (e - 52)"
    by simp
  have small: "of_int m * 2 powi (e - 52) < (2::rat) ^ 1024"
  proof (cases "e = 1023")
    case True
    have "a / 2 powi (e - 52) < (2 ^ 1024 - 2 ^ 970) / 2 powi (e - 52)"
      using top upos by (simp add: divide_strict_right_mono)
    also have "\<dots> = of_int (2 ^ 53 - 1) + 1 / 2"
      by (simp add: True power_int_def)
    finally have "m \<le> 2 ^ 53 - 1"
      unfolding m_def a_def [symmetric] by (rule round_half_even_le)
    then have "(of_int m :: rat) \<le> of_int (2 ^ 53 - 1)"
      by (simp only: of_int_le_iff)
    then have "(of_int m :: rat) * 2 powi (e - 52) \<le> of_int (2 ^ 53 - 1) * 2 powi (e - 52)"
      using upos by (simp only: mult_right_mono less_imp_le)
    also have "\<dots> < 2 ^ 1024"
      by (simp add: True power_int_def)
    finally show ?thesis .
  next
    case False
    with e1024 have e1022: "e + 1 \<le> 1023"
      by simp
    have "a / 2 powi (e - 52) < 2 powi (e + 1) / 2 powi (e - 52)"
      using hi upos by (simp add: divide_strict_right_mono)
    also have "\<dots> = 2 powi (e + 1 - (e - 52))"
      by (rule power_int_diff [symmetric]) simp
    also have "e + 1 - (e - 52) = 53"
      by simp
    also have "(2::rat) powi 53 = of_int (2 ^ 53)"
      by simp
    finally have "a / 2 powi (e - 52) < of_int (2 ^ 53)" .
    then have "a / 2 powi (e - 52) < of_int (2 ^ 53) + 1 / 2"
      by linarith
    then have "m \<le> 2 ^ 53"
      unfolding m_def a_def [symmetric] by (rule round_half_even_le)
    then have "(of_int m :: rat) \<le> of_int (2 ^ 53)"
      by (simp only: of_int_le_iff)
    then have "(of_int m :: rat) * 2 powi (e - 52) \<le> of_int (2 ^ 53) * 2 powi (e - 52)"
      using upos by (simp only: mult_right_mono less_imp_le)
    also have "\<dots> = 2 powi 53 * 2 powi (e - 52)"
      by simp
    also have "\<dots> = 2 powi (53 + (e - 52))"
      by (rule power_int_add [symmetric]) simp
    also have "\<dots> \<le> 2 powi 1023"
      using e1022 by (intro power_int_increasing) simp_all
    also have "\<dots> < 2 ^ 1024"
      by simp
    finally show ?thesis .
  qed
  have "0 < m * 2 ^ nat (e - 52)"
    using large(2) by (simp add: zero_less_mult_iff)
  moreover have "toDouble (of_int n) = Fin (of_int (m * 2 ^ nat (e - 52)))"
    using large(3) small by (simp del: power_numeral)
  ultimately show ?thesis
    by blast
qed

lemma toDouble_nat_overflow:
  assumes "2 ^ 1024 - 2 ^ 970 \<le> n"
  shows "toDouble (of_int n) = PosInf"
proof -
  define e where "e = ilog2 (of_int n)"
  define m where "m = round_half_even (of_int n / 2 powi (e - 52))"
  define a :: rat where "a = of_int n"
  have n53: "2 ^ 53 \<le> n"
    using assms by simp
  note large = toDouble_large_nat [OF n53, folded e_def, folded m_def]
  have "(of_int (2 ^ 53) :: rat) \<le> of_int n"
    using n53 by (simp only: of_int_le_iff)
  then have pos: "0 < a"
    by (simp add: a_def)
  have lo: "2 powi e \<le> a" and hi: "a < 2 powi (e + 1)"
    unfolding e_def a_def [symmetric] using ilog2_bounds [OF pos] by simp_all
  have "(of_int (2 ^ 1024 - 2 ^ 970) :: rat) \<le> of_int n"
    using assms by (simp only: of_int_le_iff)
  then have bottom: "2 ^ 1024 - 2 ^ 970 \<le> a"
    by (simp add: a_def)
  have "(2::rat) powi 1023 < 2 powi (e + 1)"
    using hi bottom by simp
  then have e1023: "1023 \<le> e"
    using power_int_less_cancel by fastforce
  have upos: "(0::rat) < 2 powi (e - 52)"
    by simp
  have big: "(2::rat) ^ 1024 \<le> of_int m * 2 powi (e - 52)"
  proof (cases "e = 1023")
    case True
    have "of_int (2 ^ 53) - 1 / 2 = (2 ^ 1024 - 2 ^ 970) / (2::rat) powi (e - 52)"
      by (simp add: True power_int_def)
    also have "\<dots> \<le> a / 2 powi (e - 52)"
      using bottom upos by (simp add: divide_right_mono)
    finally have "of_int (2 ^ 53) - 1 / 2 \<le> a / 2 powi (e - 52)" .
    then have "2 ^ 53 \<le> m"
      unfolding m_def a_def [symmetric] by (rule round_half_even_tie_up) simp
    then have "(of_int (2 ^ 53) :: rat) \<le> of_int m"
      by (simp only: of_int_le_iff)
    then have step: "(of_int (2 ^ 53) :: rat) * 2 powi (e - 52) \<le> of_int m * 2 powi (e - 52)"
      using upos by (simp only: mult_right_mono less_imp_le)
    have "(2::rat) ^ 1024 = of_int (2 ^ 53) * 2 powi (e - 52)"
      by (simp add: True power_int_def)
    also note step
    finally show ?thesis .
  next
    case False
    with e1023 have e1024: "1024 \<le> e"
      by simp
    have "(of_int (2 ^ 52) :: rat) \<le> of_int m"
      using large(2) by (simp only: of_int_le_iff)
    then have step: "(of_int (2 ^ 52) :: rat) * 2 powi (e - 52) \<le> of_int m * 2 powi (e - 52)"
      using upos by (simp only: mult_right_mono less_imp_le)
    have "(2::rat) ^ 1024 = 2 powi 1024"
      by simp
    also have "\<dots> \<le> 2 powi (52 + (e - 52))"
      using e1024 by (intro power_int_increasing) simp_all
    also have "\<dots> = 2 powi 52 * 2 powi (e - 52)"
      by (rule power_int_add) simp
    also have "\<dots> = of_int (2 ^ 52) * 2 powi (e - 52)"
      by simp
    also note step
    finally show ?thesis .
  qed
  show ?thesis
    using large(3) big by (simp del: power_numeral)
qed

lemma toDouble_pos_int:
  assumes "0 < n" and "n < 2 ^ 1024 - 2 ^ 970"
  shows "\<exists>k. 0 < k \<and> toDouble (of_int n) = Fin (of_int k)"
proof (cases "n < 2 ^ 53")
  case True
  with assms(1) show ?thesis
    using toDouble_small_nat by blast
next
  case False
  then have "2 ^ 53 \<le> n"
    by simp
  then show ?thesis
    using assms(2) by (rule toDouble_nat_finite)
qed

lemma digit_not_ws:
  assumes "is_digit b c"
  shows "\<not> is_ws c"
  using assms
  by (auto simp: is_digit_def hex_value_def is_ws_def Let_def split: if_splits option.splits)

lemma trim_no_ws:
  assumes "s \<noteq> []" and "\<not> is_ws (hd s)" and "\<not> is_ws (last s)"
  shows "trim s = s"
proof -
  have a: "dropWhile is_ws s = s"
    using assms(1,2) by (cases s) simp_all
  have "rev s \<noteq> []" "\<not> is_ws (hd (rev s))"
    using assms(1,3) by (simp_all add: hd_rev)
  then have "dropWhile is_ws (rev s) = rev s"
    by (cases "rev s") simp_all
  with a show ?thesis
    by (simp add: trim_def)
qed

lemma trim_digits:
  assumes "s \<noteq> []" and "list_all (is_digit b) s"
  shows "trim s = s"
proof -
  have "is_digit b (hd s)" "is_digit b (last s)"
    using assms by (simp_all add: list_all_iff)
  then show ?thesis
    using assms(1) digit_not_ws trim_no_ws by blast
qed

lemma decimal_digit_char:
  assumes "is_digit 10 c"
  shows "c \<noteq> CHR ''+''" "c \<noteq> CHR ''-''" "c \<noteq> CHR ''.''" "c \<noteq> CHR ''I''"
    "c \<noteq> CHR ''b''" "c \<noteq> CHR ''B''" "c \<noteq> CHR ''o''" "c \<noteq> CHR ''O''"
    "c \<noteq> CHR ''x''" "c \<noteq> CHR ''X''"
  using assms by (auto simp: is_digit_def hex_value_def Let_def)

lemma radix_prefix_digits:
  assumes "list_all (is_digit 10) s"
  shows "radix_prefix s = None"
proof (cases s)
  case Nil
  then show ?thesis by (simp add: radix_prefix_def)
next
  case (Cons z t)
  show ?thesis
  proof (cases t)
    case Nil
    with Cons show ?thesis by (simp add: radix_prefix_def)
  next
    case (Cons c u)
    with \<open>s = z # t\<close> assms have "is_digit 10 c"
      by simp
    from decimal_digit_char(5-10) [OF this] show ?thesis
      by (simp add: radix_prefix_def \<open>s = z # t\<close> Cons)
  qed
qed

lemma unsigned_decimal_digits:
  assumes "s \<noteq> []" and "list_all (is_digit 10) s"
  shows "unsigned_decimal s = Some (of_int (radix_value 10 s))"
proof -
  have "\<forall>c \<in> set s. is_digit 10 c"
    using assms(2) by (simp add: list_all_iff)
  then have tw: "takeWhile (is_digit 10) s = s" and dw: "dropWhile (is_digit 10) s = []"
    by simp_all
  show ?thesis
    by (simp add: unsigned_decimal_def Let_def tw dw exponent_part_def assms(1))
qed

lemma StringToNumber_digits:
  assumes "s \<noteq> []" and "list_all (is_digit 10) s"
  shows "StringToNumber s = toDouble (of_int (radix_value 10 s))"
proof -
  obtain c t where s: "s = c # t"
    using assms(1) by (cases s) auto
  with assms(2) have c: "is_digit 10 c"
    by simp
  have "s \<noteq> ''Infinity''"
    using decimal_digit_char(4) [OF c] s by auto
  then have "unsigned_literal s = toDouble (of_int (radix_value 10 s))"
    by (simp add: unsigned_literal_def unsigned_decimal_digits [OF assms])
  moreover have "str_decimal_literal s = unsigned_literal s"
    using decimal_digit_char(1,2) [OF c] by (simp add: str_decimal_literal_def s)
  ultimately show ?thesis
    by (simp add: StringToNumber_def trim_digits [OF assms] radix_prefix_digits [OF assms(2)]
        assms(1))
qed

lemma radix_value_nonneg: "0 \<le> radix_value 10 s"
proof -
  have "0 \<le> digit_value c" for c
    by (simp add: digit_value_def hex_value_def Let_def)
  then have "0 \<le> acc \<Longrightarrow> 0 \<le> foldl (\<lambda>acc c. acc * 10 + digit_value c) acc s" for acc
    by (induction s arbitrary: acc) simp_all
  then show ?thesis
    by (simp add: radix_value_def)
qed

lemma StringToNumber_digits_exact:
  assumes "s \<noteq> []" and "list_all (is_digit 10) s" and "radix_value 10 s < 2 ^ 53"
  shows "StringToNumber s = Fin (of_int (radix_value 10 s))"
proof -
  have "\<bar>radix_value 10 s\<bar> < 2 ^ 53"
    using radix_value_nonneg [of s] assms(3) by simp
  then show ?thesis
    by (simp only: StringToNumber_digits [OF assms(1,2)] toDouble_of_int)
qed

lemma StringToNumber_trim:
  assumes "trim s = trim t"
  shows "StringToNumber s = StringToNumber t"
  using assms by (simp add: StringToNumber_def)

lemmas digit_simps = is_digit_def hex_value_def digit_value_def radix_value_def

lemma toDouble_numeral:
  assumes "numeral w < (2::int) ^ 53"
  shows "toDouble (numeral w) = Fin (numeral w)"
  using toDouble_of_int [of "numeral w"] assms by simp

lemma toDouble_1: "toDouble 1 = Fin 1"
  using toDouble_of_int [of 1] by simp

lemma id_1: "StringToNumber ''1'' = Fin 1"
proof -
  have "StringToNumber ''1'' = Fin (of_int (radix_value 10 ''1''))"
    by (rule StringToNumber_digits_exact) (simp_all add: digit_simps)
  then show ?thesis
    by (simp add: digit_simps)
qed

lemma id_0: "StringToNumber ''0'' = Fin 0"
proof -
  have "StringToNumber ''0'' = Fin (of_int (radix_value 10 ''0''))"
    by (rule StringToNumber_digits_exact) (simp_all add: digit_simps)
  then show ?thesis
    by (simp add: digit_simps)
qed

lemma id_space_1: "StringToNumber '' 1'' = Fin 1"
proof -
  have "trim '' 1'' = trim ''1''"
    by (simp add: trim_def is_ws_def)
  then show ?thesis
    using StringToNumber_trim id_1 by metis
qed

lemma trim_plain:
  "trim ''1.0'' = ''1.0''" "trim ''1e2'' = ''1e2''" "trim ''+1'' = ''+1''"
  "trim ''0x10'' = ''0x10''" "trim ''-1'' = ''-1''" "trim ''1aaa'' = ''1aaa''"
  by (simp_all add: trim_def is_ws_def)

lemma id_1_point_0: "StringToNumber ''1.0'' = Fin 1"
proof -
  have "unsigned_decimal ''1.0'' = Some 1"
    by (simp add: unsigned_decimal_def exponent_part_def digit_simps power_int_def)
  then show ?thesis
    by (simp add: StringToNumber_def trim_plain radix_prefix_def str_decimal_literal_def
        unsigned_literal_def toDouble_1)
qed

lemma id_1e2: "StringToNumber ''1e2'' = Fin 100"
proof -
  have "unsigned_decimal ''1e2'' = Some 100"
    by (simp add: unsigned_decimal_def exponent_part_def signed_integer_def digit_simps
        power_int_def)
  then show ?thesis
    by (simp add: StringToNumber_def trim_plain radix_prefix_def str_decimal_literal_def
        unsigned_literal_def toDouble_numeral)
qed

lemma id_plus_1: "StringToNumber ''+1'' = Fin 1"
proof -
  have "unsigned_decimal ''1'' = Some 1"
    by (simp add: unsigned_decimal_def exponent_part_def digit_simps)
  then show ?thesis
    by (simp add: StringToNumber_def trim_plain radix_prefix_def str_decimal_literal_def
        unsigned_literal_def toDouble_1)
qed

lemma id_minus_1: "StringToNumber ''-1'' = Fin (- 1)"
proof -
  have "unsigned_decimal ''1'' = Some 1"
    by (simp add: unsigned_decimal_def exponent_part_def digit_simps)
  then show ?thesis
    by (simp add: StringToNumber_def trim_plain radix_prefix_def str_decimal_literal_def
        unsigned_literal_def toDouble_1)
qed

lemma id_0x10: "StringToNumber ''0x10'' = Fin 16"
  by (simp add: StringToNumber_def trim_plain radix_prefix_def digit_simps toDouble_numeral)

lemma id_1aaa: "StringToNumber ''1aaa'' = NaN"
proof -
  have "unsigned_decimal ''1aaa'' = None"
    by (simp add: unsigned_decimal_def exponent_part_def digit_simps)
  then show ?thesis
    by (simp add: StringToNumber_def trim_plain radix_prefix_def str_decimal_literal_def
        unsigned_literal_def)
qed

section \<open>Patterns\<close>

text \<open>
  A lone \<open>%\<close> matches every text, a \<open>%\<close> in front of a pattern lets the rest of the
  pattern match from any position on, and a value without \<open>%\<close>, \<open>_\<close> and backslash is
  found by \<open>ILIKE\<close> exactly where it occurs in the column, letter case aside.
\<close>

lemma like_match_percent: "like_match ''%'' t"
  by (induction t) simp_all

lemma like_match_any_run:
  "like_match (CHR ''%'' # p) t \<longleftrightarrow> (\<exists>u. suffix u t \<and> like_match p u)"
proof (induction t)
  case Nil
  show ?case by simp
next
  case (Cons x t)
  have "like_match (CHR ''%'' # p) (x # t)
      \<longleftrightarrow> like_match p (x # t) \<or> like_match (CHR ''%'' # p) t"
    by simp
  also have "\<dots> \<longleftrightarrow> like_match p (x # t) \<or> (\<exists>u. suffix u t \<and> like_match p u)"
    unfolding Cons.IH ..
  also have "\<dots> \<longleftrightarrow> (\<exists>u. suffix u (x # t) \<and> like_match p u)"
    by (auto simp: suffix_Cons)
  finally show ?case .
qed

lemma like_match_plain_prefix:
  assumes "plain_text v"
  shows "like_match (v @ ''%'') t \<longleftrightarrow> prefix v t"
  using assms
proof (induction v arbitrary: t)
  case Nil
  show ?case using like_match_percent by simp
next
  case (Cons c v)
  then have c: "c \<noteq> CHR ''%''" "c \<noteq> CHR ''_''" "c \<noteq> CHR 0x5C" and v: "plain_text v"
    by (simp_all add: plain_text_def)
  show ?case
  proof (cases t)
    case Nil
    with c show ?thesis by simp
  next
    case (Cons x rest)
    with c Cons.IH [OF v, of rest] show ?thesis by auto
  qed
qed

lemma like_match_plain:
  assumes "plain_text v"
  shows "like_match (''%'' @ v @ ''%'') t \<longleftrightarrow> sublist v t"
proof -
  have "like_match (''%'' @ v @ ''%'') t \<longleftrightarrow> (\<exists>u. suffix u t \<and> like_match (v @ ''%'') u)"
    using like_match_any_run [of "v @ ''%''" t] by simp
  also have "\<dots> \<longleftrightarrow> (\<exists>u. suffix u t \<and> prefix v u)"
    by (simp add: like_match_plain_prefix [OF assms])
  also have "\<dots> \<longleftrightarrow> sublist v t"
    by (auto simp: sublist_def suffix_def prefix_def)
  finally show ?thesis .
qed

lemma contains_insensitive_plain:
  assumes "lower CHR ''%'' = CHR ''%''" and "plain_text (map lower v)"
  shows "contains_insensitive lower col v \<longleftrightarrow> contains_ignoring_case lower col v"
  using like_match_plain [OF assms(2), of "map lower col"] assms(1)
  by (simp add: contains_insensitive_def contains_ignoring_case_def)

lemma contains_insensitive_percent:
  assumes "lower CHR ''%'' = CHR ''%''"
  shows "contains_insensitive lower col ''%''"
proof -
  have "like_match ''%%'' t" for t
    using like_match_any_run [of "''%''" t] like_match_percent by blast
  then have "like_match ''%%%'' t" for t
    using like_match_any_run [of "''%%''" t] by blast
  moreover have "map lower (''%'' @ ''%'' @ ''%'') = ''%%%''"
    using assms by simp
  ultimately show ?thesis
    unfolding contains_insensitive_def by (simp only:)
qed

section \<open>Integers as JSON text\<close>

text \<open>
  Below \<open>2\<^sup>5\<^sup>3\<close> every integer is a double of its own, so that no shorter run of digits
  reads back as it: the integer is written as it is, and \<open>skip\<close> and \<open>take\<close> are its
  remainder modulo \<open>2\<^sup>3\<^sup>2\<close>.
\<close>

lemma toDouble_large_not_small:
  assumes "2 ^ 53 \<le> c" and "\<bar>n\<bar> < 2 ^ 53"
  shows "toDouble (of_int c) \<noteq> Fin (of_int n)"
proof -
  define e where "e = ilog2 (of_int c)"
  define m where "m = round_half_even (of_int c / 2 powi (e - 52))"
  note large = toDouble_large_nat [OF assms(1), folded e_def, folded m_def]
  have "1 \<le> nat (e - 52)"
    using large(1) by simp
  then have "(2::int) ^ 1 \<le> 2 ^ nat (e - 52)"
    by (intro power_increasing) simp_all
  then have "(2::int) ^ 52 * 2 ^ 1 \<le> m * 2 ^ nat (e - 52)"
    using large(2) by (intro mult_mono) simp_all
  then have big: "2 ^ 53 \<le> m * 2 ^ nat (e - 52)"
    by simp
  show ?thesis
  proof (cases "(2::rat) ^ 1024 \<le> of_int m * 2 powi (e - 52)")
    case True
    then show ?thesis
      using large(3) by simp
  next
    case False
    then have "toDouble (of_int c) = Fin (of_int (m * 2 ^ nat (e - 52)))"
      using large(3) by simp
    moreover have "m * 2 ^ nat (e - 52) \<noteq> n"
      using big assms(2) by linarith
    then have "(of_int (m * 2 ^ nat (e - 52)) :: rat) \<noteq> of_int n"
      by (simp only: of_int_eq_iff not_False_eq_True)
    ultimately show ?thesis
      by (simp only: jsnum.inject not_False_eq_True)
  qed
qed

lemma toDouble_small_inj:
  assumes "0 \<le> c" and "0 \<le> n" and "n < 2 ^ 53"
    and "toDouble (of_int c) = toDouble (of_int n)"
  shows "c = n"
proof -
  have n: "toDouble (of_int n) = Fin (of_int n)"
    using assms(2,3) by (intro toDouble_of_int) simp
  show ?thesis
  proof (cases "c < 2 ^ 53")
    case True
    then have "toDouble (of_int c) = Fin (of_int c)"
      using assms(1) by (intro toDouble_of_int) simp
    with n assms(4) show ?thesis
      by simp
  next
    case False
    then have "toDouble (of_int c) \<noteq> Fin (of_int n)"
      using assms(2,3) by (intro toDouble_large_not_small) simp_all
    with n assms(4) show ?thesis
      by simp
  qed
qed

lemma shortest_from_small:
  assumes "0 \<le> n" and "n < 2 ^ 53"
  shows "shortest_from n e = n"
proof (induction e)
  case 0
  show ?case by simp
next
  case (Suc e)
  define u :: int where "u = 10 ^ Suc e"
  define lo where "lo = (n div u) * u"
  define hi where "hi = lo + u"
  have u: "0 < u"
    by (simp add: u_def)
  have split: "n = lo + n mod u"
    by (simp add: lo_def)
  have rem: "0 \<le> n mod u" "n mod u < u"
    using u by simp_all
  have "0 \<le> n div u"
    using u assms(1) by (simp add: pos_imp_zdiv_nonneg_iff)
  then have "0 \<le> lo"
    using u by (simp add: lo_def)
  moreover have "lo \<le> n"
    using split rem(1) by linarith
  ultimately have lo: "0 \<le> lo" "lo \<le> n"
    by simp_all
  have "n < hi"
    unfolding hi_def using split rem(2) by linarith
  then have hi: "n < hi" "0 \<le> hi"
    using assms(1) by simp_all
  have ok_lo: "toDouble (of_int lo) = toDouble (of_int n) \<Longrightarrow> lo = n"
    using lo(1) assms by (rule toDouble_small_inj)
  have ok_hi: "toDouble (of_int hi) \<noteq> toDouble (of_int n)"
    using toDouble_small_inj [OF hi(2) assms] hi(1) by auto
  have "shortest_from n (Suc e) =
      (if toDouble (of_int lo) = toDouble (of_int n)
          \<and> toDouble (of_int hi) = toDouble (of_int n)
       then (if n - lo < hi - n then lo
             else if hi - n < n - lo then hi
             else if even (n div u) then lo else hi)
       else if toDouble (of_int lo) = toDouble (of_int n) then lo
       else if toDouble (of_int hi) = toDouble (of_int n) then hi
       else shortest_from n e)"
    unfolding shortest_from.simps Let_def u_def lo_def hi_def by (rule refl)
  also have "\<dots> = (if toDouble (of_int lo) = toDouble (of_int n) then lo else shortest_from n e)"
    using ok_hi by (simp only: simp_thms if_False)
  finally show ?case
    using ok_lo Suc.IH by simp
qed

lemma json_integer_small:
  assumes "n < 2 ^ 53"
  shows "json_integer n = n"
proof -
  have "int n < int (2 ^ 53)"
    using assms by (simp only: of_nat_less_iff)
  then have "int n < 2 ^ 53"
    by simp
  then have "shortest_from (int n) (floorlog 10 n - 1) = int n"
    by (intro shortest_from_small) simp_all
  then show ?thesis
    by (simp add: json_integer_def)
qed

lemma skip_or_take_small:
  assumes "n < 2 ^ 53"
  shows "skip_or_take n = Inr (n mod 2 ^ 32)"
proof -
  have "n < 2 ^ 63"
    using assms by (rule less_trans) simp
  then show ?thesis
    by (simp add: skip_or_take_def json_integer_small [OF assms])
qed

section \<open>Listing papers and authors\<close>

lemma getAllPapers_eq:
  "getAllPapers lower s f =
     (if year_fits (f_year f) \<and> json_integer (f_offset f) < 2 ^ 63
         \<and> json_integer (f_limit f) < 2 ^ 63
      then Inr \<lparr>pp_papers =
                  map (\<lambda>p. (p, authors_of s (p_id p)))
                    (take (json_integer (f_limit f) mod 2 ^ 32)
                       (drop (json_integer (f_offset f) mod 2 ^ 32)
                          (matching_papers lower s f))),
                pp_total =
                  min (json_integer (f_limit f) mod 2 ^ 32)
                    (length (matching_papers lower s f)
                       - json_integer (f_offset f) mod 2 ^ 32),
                pp_limit = f_limit f, pp_offset = f_offset f\<rparr>
      else Inl ValueOutOfRange)"
  by (simp add: getAllPapers_def skip_or_take_def Let_def not_le min.commute)

lemma getAllAuthors_eq:
  "getAllAuthors lower s g =
     (if json_integer (af_offset g) < 2 ^ 63 \<and> json_integer (af_limit g) < 2 ^ 63
      then Inr \<lparr>ap_authors =
                  map (\<lambda>a. (a, papers_of s (a_id a)))
                    (take (json_integer (af_limit g) mod 2 ^ 32)
                       (drop (json_integer (af_offset g) mod 2 ^ 32)
                          (matching_authors lower s g))),
                ap_total =
                  min (json_integer (af_limit g) mod 2 ^ 32)
                    (length (matching_authors lower s g)
                       - json_integer (af_offset g) mod 2 ^ 32),
                ap_limit = af_limit g, ap_offset = af_offset g\<rparr>
      else Inl ValueOutOfRange)"
  by (simp add: getAllAuthors_def skip_or_take_def Let_def not_le min.commute)

lemma below_2_53:
  assumes "n < 2 ^ 32"
  shows "n < (2::nat) ^ 53"
  using assms by (rule less_trans) simp

lemma below_2_63:
  assumes "n < 2 ^ 53"
  shows "n < (2::nat) ^ 63"
  using assms by (rule less_trans) simp

lemma getAllPapers_validated:
  assumes "year_fits (f_year f)" and "f_limit f < 2 ^ 32" and "f_offset f < 2 ^ 53"
  shows "getAllPapers lower s f =
     Inr \<lparr>pp_papers =
            map (\<lambda>p. (p, authors_of s (p_id p)))
              (take (f_limit f) (drop (f_offset f mod 2 ^ 32) (matching_papers lower s f))),
          pp_total =
            min (f_limit f) (length (matching_papers lower s f) - f_offset f mod 2 ^ 32),
          pp_limit = f_limit f, pp_offset = f_offset f\<rparr>"
proof -
  have l: "json_integer (f_limit f) = f_limit f"
    using assms(2) by (intro json_integer_small below_2_53)
  have o: "json_integer (f_offset f) = f_offset f"
    using assms(3) by (rule json_integer_small)
  have "f_limit f < 2 ^ 63" "f_offset f < 2 ^ 63"
    using assms(2,3) by (auto intro: below_2_63 below_2_53)
  then show ?thesis
    unfolding getAllPapers_eq l o using assms(1,2) by simp
qed

lemma getAllAuthors_validated:
  assumes "af_limit g < 2 ^ 32" and "af_offset g < 2 ^ 53"
  shows "getAllAuthors lower s g =
     Inr \<lparr>ap_authors =
            map (\<lambda>a. (a, papers_of s (a_id a)))
              (take (af_limit g) (drop (af_offset g mod 2 ^ 32) (matching_authors lower s g))),
          ap_total =
            min (af_limit g) (length (matching_authors lower s g) - af_offset g mod 2 ^ 32),
          ap_limit = af_limit g, ap_offset = af_offset g\<rparr>"
proof -
  have l: "json_integer (af_limit g) = af_limit g"
    using assms(1) by (intro json_integer_small below_2_53)
  have o: "json_integer (af_offset g) = af_offset g"
    using assms(2) by (rule json_integer_small)
  have "af_limit g < 2 ^ 63" "af_offset g < 2 ^ 63"
    using assms by (auto intro: below_2_63 below_2_53)
  then show ?thesis
    unfolding getAllAuthors_eq l o using assms(1) by simp
qed



lemma set_matching_papers:
  "set (matching_papers lower s f) = {p \<in> set (paper_rows s). paper_where lower f s p}"
  by (auto simp: matching_papers_def)




lemma matching_second_page:
  "matching_papers lower store_three second_page = [paper1, paper2, paper3]"
  by (simp add: matching_papers_def store_three_def second_page_def paper_where_def
      paper1_def paper2_def paper3_def)


lemma matching_authors_second_page:
  "map a_id (matching_authors lower store_three authors_second_page) = [1, 2, 3, 4, 5]"
  by (simp add: matching_authors_def store_three_def authors_second_page_def
      author_rows_where_def author1_def author2_def)



subsection \<open>The \<open>author\<close> filter\<close>

lemma authorArrayFilter_nonempty:
  assumes "vs \<noteq> []"
  shows "authorArrayFilter lower (AuthorArray vs) s p
           = (\<forall>v \<in> set vs. some_author_named lower s p v)"
  using assms by (cases vs) simp_all

lemma paper_where_author:
  "paper_where lower f s p
     = (paper_where lower (f\<lparr>f_author := NoAuthor\<rparr>) s p
        \<and> authorArrayFilter lower (f_author f) s p)"
  by (simp add: paper_where_def)

lemma matching_papers_author:
  "p \<in> set (matching_papers lower s f)
     \<longleftrightarrow> p \<in> set (matching_papers lower s (f\<lparr>f_author := NoAuthor\<rparr>))
         \<and> authorArrayFilter lower (f_author f) s p"
  unfolding set_matching_papers
  using paper_where_author [of lower f s p] by blast

lemma page_is_everything:
  assumes "year_fits (f_year f)" and "f_offset f = 0"
    and "length (paper_rows s) \<le> f_limit f" and "f_limit f < 2 ^ 32"
  shows "\<exists>page. getAllPapers lower s f = Inr page
           \<and> map fst (pp_papers page) = matching_papers lower s f"
proof -
  have "length (matching_papers lower s f) \<le> length (paper_rows s)"
    by (simp add: matching_papers_def)
  with assms(3) have "length (matching_papers lower s f) \<le> f_limit f"
    by simp
  moreover have "getAllPapers lower s f =
     Inr \<lparr>pp_papers =
            map (\<lambda>p. (p, authors_of s (p_id p)))
              (take (f_limit f) (drop (f_offset f mod 2 ^ 32) (matching_papers lower s f))),
          pp_total =
            min (f_limit f) (length (matching_papers lower s f) - f_offset f mod 2 ^ 32),
          pp_limit = f_limit f, pp_offset = f_offset f\<rparr>"
    using assms(1,4) by (rule getAllPapers_validated) (simp add: assms(2))
  ultimately show ?thesis
    by (simp add: assms(2) comp_def)
qed

lemma getAllPapers_page:
  assumes "getAllPapers lower s f = Inr page"
  shows "map fst (pp_papers page)
           = take (json_integer (f_limit f) mod 2 ^ 32)
               (drop (json_integer (f_offset f) mod 2 ^ 32) (matching_papers lower s f))"
  using assms unfolding getAllPapers_eq
  by (auto simp: comp_def split: if_splits)

text \<open>
  Claim C7, as amended. For every non-empty list of values given as the \<open>author\<close>
  filter, a paper matches if and only if it passes the other filters and, for every value
  \<open>v\<close> of the list, the name of some author of the paper matches the pattern \<open>%v%\<close> of
  \<open>ILIKE\<close>, in which \<open>%\<close> and \<open>_\<close> inside \<open>v\<close> are wildcards and a backslash quotes the
  next character; for values without these three characters that is: the name contains the
  value, letter case ignored. The value \<open>%\<close> is matched by every name. The result is the
  slice of the matching papers that limit and offset select, which holds all of them when
  the offset is 0 and the limit is not below the number of papers. A single string selects
  what the list with that one value selects. The empty list selects the papers that have
  no author.
\<close>

theorem author_array_is_conjunction:
  assumes "f_author f = AuthorArray vs" and "vs \<noteq> []"
  shows "(p \<in> set (matching_papers lower s f)
            \<longleftrightarrow> p \<in> set (matching_papers lower s (f\<lparr>f_author := NoAuthor\<rparr>))
                \<and> (\<forall>v \<in> set vs. \<exists>a \<in> set (authors_of s (p_id p)).
                       like_match (map lower (''%'' @ v @ ''%'')) (map lower (a_name a))))
         \<and> (lower CHR ''%'' = CHR ''%'' \<and> (\<forall>v \<in> set vs. plain_text (map lower v)) \<longrightarrow>
              (p \<in> set (matching_papers lower s f)
                 \<longleftrightarrow> p \<in> set (matching_papers lower s (f\<lparr>f_author := NoAuthor\<rparr>))
                     \<and> (\<forall>v \<in> set vs. \<exists>a \<in> set (authors_of s (p_id p)).
                            contains_ignoring_case lower (a_name a) v)))
         \<and> (lower CHR ''%'' = CHR ''%'' \<longrightarrow> contains_insensitive lower col ''%'')
         \<and> (getAllPapers lower s f = Inr page \<longrightarrow>
              map fst (pp_papers page)
                = take (json_integer (f_limit f) mod 2 ^ 32)
                    (drop (json_integer (f_offset f) mod 2 ^ 32) (matching_papers lower s f)))
         \<and> (year_fits (f_year f) \<and> f_offset f = 0 \<and> length (paper_rows s) \<le> f_limit f
              \<and> f_limit f < 2 ^ 32 \<longrightarrow>
              (\<exists>all. getAllPapers lower s f = Inr all
                 \<and> map fst (pp_papers all) = matching_papers lower s f))
         \<and> getAllPapers lower s (f\<lparr>f_author := AuthorString v\<rparr>)
             = getAllPapers lower s (f\<lparr>f_author := AuthorArray [v]\<rparr>)
         \<and> (p \<in> set (matching_papers lower s (f\<lparr>f_author := AuthorArray []\<rparr>))
               \<longleftrightarrow> p \<in> set (matching_papers lower s (f\<lparr>f_author := NoAuthor\<rparr>))
                   \<and> authors_of s (p_id p) = [])"
proof -
  let ?others = "p \<in> set (matching_papers lower s (f\<lparr>f_author := NoAuthor\<rparr>))"
  let ?all = "\<forall>v \<in> set vs. \<exists>a \<in> set (authors_of s (p_id p)).
                 like_match (map lower (''%'' @ v @ ''%'')) (map lower (a_name a))"
  let ?sub = "\<forall>v \<in> set vs. \<exists>a \<in> set (authors_of s (p_id p)).
                 contains_ignoring_case lower (a_name a) v"
  have filt: "authorArrayFilter lower (f_author f) s p = ?all"
    unfolding assms(1) authorArrayFilter_nonempty [OF assms(2)]
    by (simp add: some_author_named_def contains_insensitive_def)
  have a: "p \<in> set (matching_papers lower s f) \<longleftrightarrow> ?others \<and> ?all"
    unfolding filt [symmetric] by (rule matching_papers_author)
  have b: "lower CHR ''%'' = CHR ''%'' \<and> (\<forall>v \<in> set vs. plain_text (map lower v)) \<longrightarrow>
      (p \<in> set (matching_papers lower s f) \<longleftrightarrow> ?others \<and> ?sub)"
  proof (rule impI)
    assume h: "lower CHR ''%'' = CHR ''%'' \<and> (\<forall>v \<in> set vs. plain_text (map lower v))"
    have "like_match (map lower (''%'' @ v @ ''%'')) (map lower col)
        \<longleftrightarrow> contains_ignoring_case lower col v" if "v \<in> set vs" for v col
      using contains_insensitive_plain [of lower v col] h that
      by (simp only: contains_insensitive_def)
    then have "?all \<longleftrightarrow> ?sub"
      by simp
    then show "p \<in> set (matching_papers lower s f) \<longleftrightarrow> ?others \<and> ?sub"
      using a by simp
  qed
  have c: "lower CHR ''%'' = CHR ''%'' \<longrightarrow> contains_insensitive lower col ''%''"
    using contains_insensitive_percent by blast
  have d: "getAllPapers lower s f = Inr page \<longrightarrow>
      map fst (pp_papers page)
        = take (json_integer (f_limit f) mod 2 ^ 32)
            (drop (json_integer (f_offset f) mod 2 ^ 32) (matching_papers lower s f))"
    using getAllPapers_page by blast
  have e: "year_fits (f_year f) \<and> f_offset f = 0 \<and> length (paper_rows s) \<le> f_limit f
        \<and> f_limit f < 2 ^ 32 \<longrightarrow>
      (\<exists>all. getAllPapers lower s f = Inr all
         \<and> map fst (pp_papers all) = matching_papers lower s f)"
    using page_is_everything by blast
  have "paper_where lower (f\<lparr>f_author := AuthorString v\<rparr>) s
      = paper_where lower (f\<lparr>f_author := AuthorArray [v]\<rparr>) s"
    by (rule ext) (simp add: paper_where_def)
  then have "matching_papers lower s (f\<lparr>f_author := AuthorString v\<rparr>)
      = matching_papers lower s (f\<lparr>f_author := AuthorArray [v]\<rparr>)"
    by (simp add: matching_papers_def)
  then have g: "getAllPapers lower s (f\<lparr>f_author := AuthorString v\<rparr>)
      = getAllPapers lower s (f\<lparr>f_author := AuthorArray [v]\<rparr>)"
    by (simp add: getAllPapers_eq)
  have h: "p \<in> set (matching_papers lower s (f\<lparr>f_author := AuthorArray []\<rparr>))
      \<longleftrightarrow> ?others \<and> authors_of s (p_id p) = []"
    using matching_papers_author [of p lower s "f\<lparr>f_author := AuthorArray []\<rparr>"] by simp
  show ?thesis
    by (intro conjI) (rule a b c d e g h)+
qed

lemma matching_john_and_charlie:
  "matching_papers lower_char store_three john_and_charlie = [paper3]"
  by code_simp

lemma matching_without_author_filter:
  "matching_papers lower_char store_three (john_and_charlie\<lparr>f_author := NoAuthor\<rparr>)
     = [paper1, paper2, paper3]"
  by code_simp

lemma matching_percent_author:
  "matching_papers lower_char store_three percent_author = [paper1, paper2, paper3]"
  by code_simp

lemma matching_empty_author_array:
  "matching_papers lower_char store_three empty_author_array = []"
  by code_simp

lemma lower_char_percent: "lower_char CHR ''%'' = CHR ''%''"
  by (simp add: lower_char_def)

lemma plain_john_and_charlie:
  "\<forall>v \<in> set [''john doe'', ''charlie'']. plain_text (map lower_char v)"
  by (simp add: plain_text_def lower_char_def)

theorem author_array_is_conjunction_witness:
  "f_author john_and_charlie = AuthorArray [''john doe'', ''charlie'']
   \<and> (\<exists>all. getAllPapers lower_char store_three john_and_charlie = Inr all
         \<and> map fst (pp_papers all) = [paper3])
   \<and> (\<exists>a \<in> set (authors_of store_three (p_id paper3)).
         contains_ignoring_case lower_char (a_name a) ''john doe'')
   \<and> (\<exists>a \<in> set (authors_of store_three (p_id paper3)).
         contains_ignoring_case lower_char (a_name a) ''charlie'')
   \<and> \<not> (\<exists>a \<in> set (authors_of store_three (p_id paper1)).
         contains_ignoring_case lower_char (a_name a) ''charlie'')
   \<and> contains_insensitive lower_char ''John Doe'' ''%''"
proof -
  have h1: "f_author john_and_charlie = AuthorArray [''john doe'', ''charlie'']"
    by (simp add: john_and_charlie_def)
  have h2: "[''john doe'', ''charlie''] \<noteq> ([] :: string list)"
    by simp
  have year: "year_fits (f_year john_and_charlie)"
    and off: "f_offset john_and_charlie = 0"
    and len: "length (paper_rows store_three) \<le> f_limit john_and_charlie"
    and lim: "f_limit john_and_charlie < 2 ^ 32"
    by (simp_all add: john_and_charlie_def year_fits_def store_three_def)
  have plain: "lower_char CHR ''%'' = CHR ''%''
      \<and> (\<forall>v \<in> set [''john doe'', ''charlie'']. plain_text (map lower_char v))"
    using lower_char_percent plain_john_and_charlie by (rule conjI)
  note inst = author_array_is_conjunction
    [OF h1 h2, of _ lower_char store_three "''John Doe''" undefined undefined]
  have "year_fits (f_year john_and_charlie) \<and> f_offset john_and_charlie = 0
        \<and> length (paper_rows store_three) \<le> f_limit john_and_charlie
        \<and> f_limit john_and_charlie < 2 ^ 32 \<longrightarrow>
      (\<exists>all. getAllPapers lower_char store_three john_and_charlie = Inr all
         \<and> map fst (pp_papers all) = matching_papers lower_char store_three john_and_charlie)"
    using inst [of paper3] by (elim conjE) assumption
  moreover have "year_fits (f_year john_and_charlie) \<and> f_offset john_and_charlie = 0
        \<and> length (paper_rows store_three) \<le> f_limit john_and_charlie
        \<and> f_limit john_and_charlie < 2 ^ 32"
    by (intro conjI) (rule year off len lim)+
  ultimately have "\<exists>all. getAllPapers lower_char store_three john_and_charlie = Inr all
         \<and> map fst (pp_papers all) = matching_papers lower_char store_three john_and_charlie"
    by (rule mp)
  then have page: "\<exists>all. getAllPapers lower_char store_three john_and_charlie = Inr all
         \<and> map fst (pp_papers all) = [paper3]"
    unfolding matching_john_and_charlie .
  have sub: "p \<in> set (matching_papers lower_char store_three john_and_charlie)
      \<longleftrightarrow> p \<in> set (matching_papers lower_char store_three
                       (john_and_charlie\<lparr>f_author := NoAuthor\<rparr>))
          \<and> (\<forall>v \<in> set [''john doe'', ''charlie''].
                \<exists>a \<in> set (authors_of store_three (p_id p)).
                  contains_ignoring_case lower_char (a_name a) v)" for p
  proof -
    have "lower_char CHR ''%'' = CHR ''%''
        \<and> (\<forall>v \<in> set [''john doe'', ''charlie'']. plain_text (map lower_char v)) \<longrightarrow>
      (p \<in> set (matching_papers lower_char store_three john_and_charlie)
        \<longleftrightarrow> p \<in> set (matching_papers lower_char store_three
                         (john_and_charlie\<lparr>f_author := NoAuthor\<rparr>))
            \<and> (\<forall>v \<in> set [''john doe'', ''charlie''].
                  \<exists>a \<in> set (authors_of store_three (p_id p)).
                    contains_ignoring_case lower_char (a_name a) v))"
      using inst [of p] by (elim conjE) assumption
    then show ?thesis
      using plain by (rule mp)
  qed
  have "paper3 \<in> set (matching_papers lower_char store_three john_and_charlie)"
    by (simp add: matching_john_and_charlie)
  then have in3: "\<forall>v \<in> set [''john doe'', ''charlie''].
      \<exists>a \<in> set (authors_of store_three (p_id paper3)).
        contains_ignoring_case lower_char (a_name a) v"
    unfolding sub [of paper3] by (rule conjunct2)
  have p13: "paper1 \<noteq> paper3"
    by (simp add: paper1_def paper3_def)
  have "paper1 \<notin> set (matching_papers lower_char store_three john_and_charlie)"
    using p13 by (simp add: matching_john_and_charlie)
  moreover have "paper1 \<in> set (matching_papers lower_char store_three
      (john_and_charlie\<lparr>f_author := NoAuthor\<rparr>))"
    by (simp add: matching_without_author_filter)
  ultimately have "\<not> (\<forall>v \<in> set [''john doe'', ''charlie''].
      \<exists>a \<in> set (authors_of store_three (p_id paper1)).
        contains_ignoring_case lower_char (a_name a) v)"
    unfolding sub [of paper1] by simp
  moreover have "\<exists>a \<in> set (authors_of store_three (p_id paper1)).
      contains_ignoring_case lower_char (a_name a) ''john doe''"
    by code_simp
  ultimately have out1: "\<not> (\<exists>a \<in> set (authors_of store_three (p_id paper1)).
      contains_ignoring_case lower_char (a_name a) ''charlie'')"
    by simp
  from in3 have in3a: "\<exists>a \<in> set (authors_of store_three (p_id paper3)).
      contains_ignoring_case lower_char (a_name a) ''john doe''"
    and in3b: "\<exists>a \<in> set (authors_of store_three (p_id paper3)).
      contains_ignoring_case lower_char (a_name a) ''charlie''"
    by simp_all
  have "lower_char CHR ''%'' = CHR ''%'' \<longrightarrow> contains_insensitive lower_char ''John Doe'' ''%''"
    using inst [of paper3] by (elim conjE) assumption
  then have pct: "contains_insensitive lower_char ''John Doe'' ''%''"
    using lower_char_percent by (rule mp)
  show ?thesis
    by (intro conjI) (rule h1 page in3a in3b out1 pct)+
qed

text \<open>
  Claim C7 as stated fails twice. For the list with the one value \<open>%\<close>, which the
  middleware lets pass, the first paper of the store is in the result although no author
  of it has a \<open>%\<close> in the name. For the empty list every paper satisfies "for every value
  of the list", yet the first paper, which has authors, is not in the result.
\<close>

theorem author_value_is_a_pattern:
  "(\<exists>page. getAllPapers lower_char store_three percent_author = Inr page
      \<and> \<not> (paper1 \<in> fst ` set (pp_papers page)
             \<longleftrightarrow> (\<forall>v \<in> set [''%''].
                    \<exists>a \<in> set (authors_of store_three (p_id paper1)).
                      contains_ignoring_case lower_char (a_name a) v)))
   \<and> (\<exists>page. getAllPapers lower_char store_three empty_author_array = Inr page
         \<and> \<not> (paper1 \<in> fst ` set (pp_papers page)
                \<longleftrightarrow> (\<forall>v \<in> set ([] :: string list).
                       \<exists>a \<in> set (authors_of store_three (p_id paper1)).
                         contains_ignoring_case lower_char (a_name a) v)))"
proof -
  define page where "page =
    \<lparr>pp_papers =
       map (\<lambda>p. (p, authors_of store_three (p_id p)))
         (take (f_limit percent_author)
            (drop (f_offset percent_author mod 2 ^ 32)
               (matching_papers lower_char store_three percent_author))),
     pp_total =
       min (f_limit percent_author)
         (length (matching_papers lower_char store_three percent_author)
            - f_offset percent_author mod 2 ^ 32),
     pp_limit = f_limit percent_author, pp_offset = f_offset percent_author\<rparr>"
  have page: "getAllPapers lower_char store_three percent_author = Inr page"
    unfolding page_def
    by (rule getAllPapers_validated) (simp_all add: percent_author_def year_fits_def)
  have lim: "f_limit percent_author = 10" and off: "f_offset percent_author = 0"
    by (simp_all add: percent_author_def)
  have "map fst (pp_papers page) = [paper1, paper2, paper3]"
    by (simp add: page_def matching_percent_author lim off comp_def)
  then have "fst ` set (pp_papers page) = set [paper1, paper2, paper3]"
    by (metis set_map)
  then have in1: "paper1 \<in> fst ` set (pp_papers page)"
    by simp
  have "\<not> (\<exists>a \<in> set (authors_of store_three (p_id paper1)).
      contains_ignoring_case lower_char (a_name a) ''%'')"
    by code_simp
  with in1 have "\<not> (paper1 \<in> fst ` set (pp_papers page)
             \<longleftrightarrow> (\<forall>v \<in> set [''%''].
                    \<exists>a \<in> set (authors_of store_three (p_id paper1)).
                      contains_ignoring_case lower_char (a_name a) v))"
    by simp
  with page have first: "\<exists>page. getAllPapers lower_char store_three percent_author = Inr page
      \<and> \<not> (paper1 \<in> fst ` set (pp_papers page)
             \<longleftrightarrow> (\<forall>v \<in> set [''%''].
                    \<exists>a \<in> set (authors_of store_three (p_id paper1)).
                      contains_ignoring_case lower_char (a_name a) v))"
    by (intro exI [of _ page] conjI)
  define none where "none =
    \<lparr>pp_papers =
       map (\<lambda>p. (p, authors_of store_three (p_id p)))
         (take (f_limit empty_author_array)
            (drop (f_offset empty_author_array mod 2 ^ 32)
               (matching_papers lower_char store_three empty_author_array))),
     pp_total =
       min (f_limit empty_author_array)
         (length (matching_papers lower_char store_three empty_author_array)
            - f_offset empty_author_array mod 2 ^ 32),
     pp_limit = f_limit empty_author_array, pp_offset = f_offset empty_author_array\<rparr>"
  have none: "getAllPapers lower_char store_three empty_author_array = Inr none"
    unfolding none_def
    by (rule getAllPapers_validated) (simp_all add: empty_author_array_def year_fits_def)
  have "pp_papers none = []"
    by (simp add: none_def matching_empty_author_array)
  then have "\<not> (paper1 \<in> fst ` set (pp_papers none)
                \<longleftrightarrow> (\<forall>v \<in> set ([] :: string list).
                       \<exists>a \<in> set (authors_of store_three (p_id paper1)).
                         contains_ignoring_case lower_char (a_name a) v))"
    by simp
  with none have second: "\<exists>page. getAllPapers lower_char store_three empty_author_array = Inr page
         \<and> \<not> (paper1 \<in> fst ` set (pp_papers page)
                \<longleftrightarrow> (\<forall>v \<in> set ([] :: string list).
                       \<exists>a \<in> set (authors_of store_three (p_id paper1)).
                         contains_ignoring_case lower_char (a_name a) v))"
    by (intro exI [of _ none] conjI)
  show ?thesis
    using first second by (rule conjI)
qed

section \<open>The query parameters \<open>limit\<close> and \<open>offset\<close>\<close>

lemma isInteger_iff: "isInteger n \<longleftrightarrow> (\<exists>k::int. n = Fin (of_int k))"
proof (cases n)
  case (Fin r)
  have "of_int \<lfloor>r\<rfloor> = r \<longleftrightarrow> (\<exists>k::int. r = of_int k)"
    by (metis floor_of_int)
  with Fin show ?thesis by simp
qed simp_all

lemma isIntegerGreaterThan0_iff:
  "isIntegerGreaterThan0 n \<longleftrightarrow> (\<exists>k::int. 0 < k \<and> n = Fin (of_int k))"
  by (auto simp: isIntegerGreaterThan0_def isInteger_iff)

lemma isIntegerNonNegative_iff:
  "isIntegerNonNegative n \<longleftrightarrow> (\<exists>k::int. 0 \<le> k \<and> n = Fin (of_int k))"
  by (auto simp: isIntegerNonNegative_def isInteger_iff)

lemma isIntegerLeThan100_iff:
  "isIntegerLeThan100 n \<longleftrightarrow> (\<exists>k::int. k \<le> 100 \<and> n = Fin (of_int k))"
proof -
  have "(of_int k :: rat) \<le> 100 \<longleftrightarrow> k \<le> 100" for k :: int
    by linarith
  then show ?thesis
    by (auto simp: isIntegerLeThan100_def isInteger_iff)
qed

lemma limit_checks_iff:
  "isIntegerGreaterThan0 n \<and> isIntegerLeThan100 n
     \<longleftrightarrow> (\<exists>k::int. 1 \<le> k \<and> k \<le> 100 \<and> n = Fin (of_int k))"
  unfolding isIntegerGreaterThan0_iff isIntegerLeThan100_iff by force

lemma validateLimit_present:
  "validateLimit (Some x) =
     (if \<exists>k::int. 1 \<le> k \<and> k \<le> 100 \<and> Number x = Fin (of_int k)
      then Some (Number x) else None)"
  unfolding limit_checks_iff [symmetric] by (simp add: validateLimit_def)

lemma validateOffset_present:
  "validateOffset (Some x) =
     (if \<exists>k::int. 0 \<le> k \<and> Number x = Fin (of_int k) then Some (Number x) else None)"
  unfolding isIntegerNonNegative_iff [symmetric] by (simp add: validateOffset_def)

lemma validateLimit_eq:
  fixes L :: "qval \<Rightarrow> bool"
  assumes "\<And>x. L x \<longleftrightarrow> (\<exists>k::int. 1 \<le> k \<and> k \<le> 100 \<and> Number x = Fin (of_int k))"
  shows "validateLimit l =
     (if \<forall>x. l = Some x \<longrightarrow> L x
      then Some (case l of None \<Rightarrow> Fin 10 | Some x \<Rightarrow> Number x) else None)"
proof (cases l)
  case None
  then show ?thesis by (simp add: validateLimit_def)
next
  case (Some x)
  have "validateLimit (Some x) = (if L x then Some (Number x) else None)"
    unfolding assms by (rule validateLimit_present)
  with Some show ?thesis by simp
qed

lemma validateOffset_eq:
  fixes Off :: "qval \<Rightarrow> bool"
  assumes "\<And>x. Off x \<longleftrightarrow> (\<exists>k::int. 0 \<le> k \<and> Number x = Fin (of_int k))"
  shows "validateOffset l =
     (if \<forall>x. l = Some x \<longrightarrow> Off x
      then Some (case l of None \<Rightarrow> Fin 0 | Some x \<Rightarrow> Number x) else None)"
proof (cases l)
  case None
  then show ?thesis by (simp add: validateOffset_def)
next
  case (Some x)
  have "validateOffset (Some x) = (if Off x then Some (Number x) else None)"
    unfolding assms by (rule validateOffset_present)
  with Some show ?thesis by simp
qed

lemma validatePaperQueryParams_eq:
  "validatePaperQueryParams q =
     (if (\<forall>y. q_year q = Some y \<longrightarrow> isIntegerGreaterThan1900 (Number y))
         \<and> (\<forall>p. q_publishedIn q = Some p \<longrightarrow> isNonEmptyStringWithoutTrim (q_string p))
         \<and> (\<forall>a. q_author q = Some a \<longrightarrow> author_param_ok a)
         \<and> (\<forall>x. q_limit q = Some x \<longrightarrow>
               (\<exists>k::int. 1 \<le> k \<and> k \<le> 100 \<and> Number x = Fin (of_int k)))
         \<and> (\<forall>x. q_offset q = Some x \<longrightarrow> (\<exists>k::int. 0 \<le> k \<and> Number x = Fin (of_int k)))
      then Next \<lparr>v_year = map_option Number (q_year q),
                 v_publishedIn = q_publishedIn q, v_author = q_author q,
                 v_limit = (case q_limit q of None \<Rightarrow> Fin 10 | Some x \<Rightarrow> Number x),
                 v_offset = (case q_offset q of None \<Rightarrow> Fin 0 | Some x \<Rightarrow> Number x)\<rparr>
      else Respond 400 ''Validation Error'' ''Invalid query parameter format'')"
proof -
  define L where "L x \<longleftrightarrow> (\<exists>k::int. 1 \<le> k \<and> k \<le> 100 \<and> Number x = Fin (of_int k))" for x
  define Off where "Off x \<longleftrightarrow> (\<exists>k::int. 0 \<le> k \<and> Number x = Fin (of_int k))" for x
  have y: "(case q_year q of None \<Rightarrow> False | Some y \<Rightarrow> \<not> isIntegerGreaterThan1900 (Number y))
      \<longleftrightarrow> \<not> (\<forall>y. q_year q = Some y \<longrightarrow> isIntegerGreaterThan1900 (Number y))"
    by (cases "q_year q") simp_all
  have p: "(case q_publishedIn q of
              None \<Rightarrow> False
            | Some p \<Rightarrow> \<not> isNonEmptyStringWithoutTrim (q_string p))
      \<longleftrightarrow> \<not> (\<forall>p. q_publishedIn q = Some p \<longrightarrow> isNonEmptyStringWithoutTrim (q_string p))"
    by (cases "q_publishedIn q") simp_all
  have a: "(case q_author q of None \<Rightarrow> False | Some a \<Rightarrow> \<not> author_param_ok a)
      \<longleftrightarrow> \<not> (\<forall>a. q_author q = Some a \<longrightarrow> author_param_ok a)"
    by (cases "q_author q") simp_all
  have "validatePaperQueryParams q =
     (if (\<forall>y. q_year q = Some y \<longrightarrow> isIntegerGreaterThan1900 (Number y))
         \<and> (\<forall>p. q_publishedIn q = Some p \<longrightarrow> isNonEmptyStringWithoutTrim (q_string p))
         \<and> (\<forall>a. q_author q = Some a \<longrightarrow> author_param_ok a)
         \<and> (\<forall>x. q_limit q = Some x \<longrightarrow> L x)
         \<and> (\<forall>x. q_offset q = Some x \<longrightarrow> Off x)
      then Next \<lparr>v_year = map_option Number (q_year q),
                 v_publishedIn = q_publishedIn q, v_author = q_author q,
                 v_limit = (case q_limit q of None \<Rightarrow> Fin 10 | Some x \<Rightarrow> Number x),
                 v_offset = (case q_offset q of None \<Rightarrow> Fin 0 | Some x \<Rightarrow> Number x)\<rparr>
      else Respond 400 ''Validation Error'' ''Invalid query parameter format'')"
    unfolding validatePaperQueryParams_def y p a
      validateLimit_eq [of L, OF L_def] validateOffset_eq [of Off, OF Off_def]
    by (simp add: respondWithValidationError_def query_error_def)
  then show ?thesis
    unfolding L_def Off_def .
qed

lemma validateAuthorQueryParams_eq:
  "validateAuthorQueryParams q =
     (if (\<forall>n. aq_name q = Some n \<longrightarrow> isNonEmptyStringAfterTrim (q_string n))
         \<and> (\<forall>a. aq_affiliation q = Some a \<longrightarrow> isNonEmptyStringAfterTrim (q_string a))
         \<and> (\<forall>x. aq_limit q = Some x \<longrightarrow>
               (\<exists>k::int. 1 \<le> k \<and> k \<le> 100 \<and> Number x = Fin (of_int k)))
         \<and> (\<forall>x. aq_offset q = Some x \<longrightarrow> (\<exists>k::int. 0 \<le> k \<and> Number x = Fin (of_int k)))
      then Next \<lparr>av_name = aq_name q, av_affiliation = aq_affiliation q,
                 av_limit = (case aq_limit q of None \<Rightarrow> Fin 10 | Some x \<Rightarrow> Number x),
                 av_offset = (case aq_offset q of None \<Rightarrow> Fin 0 | Some x \<Rightarrow> Number x)\<rparr>
      else Respond 400 ''Validation Error'' ''Invalid query parameter format'')"
proof -
  define L where "L x \<longleftrightarrow> (\<exists>k::int. 1 \<le> k \<and> k \<le> 100 \<and> Number x = Fin (of_int k))" for x
  define Off where "Off x \<longleftrightarrow> (\<exists>k::int. 0 \<le> k \<and> Number x = Fin (of_int k))" for x
  have n: "(case aq_name q of
              None \<Rightarrow> False
            | Some n \<Rightarrow> \<not> isNonEmptyStringAfterTrim (q_string n))
      \<longleftrightarrow> \<not> (\<forall>n. aq_name q = Some n \<longrightarrow> isNonEmptyStringAfterTrim (q_string n))"
    by (cases "aq_name q") simp_all
  have a: "(case aq_affiliation q of
              None \<Rightarrow> False
            | Some a \<Rightarrow> \<not> isNonEmptyStringAfterTrim (q_string a))
      \<longleftrightarrow> \<not> (\<forall>a. aq_affiliation q = Some a \<longrightarrow> isNonEmptyStringAfterTrim (q_string a))"
    by (cases "aq_affiliation q") simp_all
  have "validateAuthorQueryParams q =
     (if (\<forall>n. aq_name q = Some n \<longrightarrow> isNonEmptyStringAfterTrim (q_string n))
         \<and> (\<forall>a. aq_affiliation q = Some a \<longrightarrow> isNonEmptyStringAfterTrim (q_string a))
         \<and> (\<forall>x. aq_limit q = Some x \<longrightarrow> L x)
         \<and> (\<forall>x. aq_offset q = Some x \<longrightarrow> Off x)
      then Next \<lparr>av_name = aq_name q, av_affiliation = aq_affiliation q,
                 av_limit = (case aq_limit q of None \<Rightarrow> Fin 10 | Some x \<Rightarrow> Number x),
                 av_offset = (case aq_offset q of None \<Rightarrow> Fin 0 | Some x \<Rightarrow> Number x)\<rparr>
      else Respond 400 ''Validation Error'' ''Invalid query parameter format'')"
    unfolding validateAuthorQueryParams_def n a
      validateLimit_eq [of L, OF L_def] validateOffset_eq [of Off, OF Off_def]
    by (simp add: respondWithValidationError_def query_error_def)
  then show ?thesis
    unfolding L_def Off_def .
qed

lemma get_papers_eq:
  "get_papers lower s q =
     (case validatePaperQueryParams q of
        Respond status err message \<Rightarrow> Respond status err message
      | Next r \<Rightarrow>
          (case getAllPapers lower s (paper_filters_of r) of
             Inl e \<Rightarrow> Respond 500 ''Internal Server Error'' ''An unexpected error occurred''
           | Inr page \<Rightarrow> Next page))"
  by (simp add: get_papers_def errorHandler_def split: mw.split sum.split)

lemma get_authors_eq:
  "get_authors lower s q =
     (case validateAuthorQueryParams q of
        Respond status err message \<Rightarrow> Respond status err message
      | Next r \<Rightarrow>
          (case getAllAuthors lower s (author_filters_of r) of
             Inl e \<Rightarrow> Respond 500 ''Internal Server Error'' ''An unexpected error occurred''
           | Inr page \<Rightarrow> Next page))"
  by (simp add: get_authors_def errorHandler_def split: mw.split sum.split)

lemma filters_of_validated:
  "f_limit (paper_filters_of r) = nat (integer_of (v_limit r))"
  "f_offset (paper_filters_of r) = nat (integer_of (v_offset r))"
  "af_limit (author_filters_of ar) = nat (integer_of (av_limit ar))"
  "af_offset (author_filters_of ar) = nat (integer_of (av_offset ar))"
  "integer_of (Fin (of_int k)) = k"
  by (simp_all add: paper_filters_of_def author_filters_of_def)

text \<open>
  Claim C9. \<open>validateLimit\<close> yields 10 for an absent parameter and the parsed Number for a
  present one that parses to an integer from 1 to 100; \<open>validateOffset\<close> yields 0 for an
  absent parameter and the parsed Number for a present one that parses to an integer that
  is not negative. The middleware of a list route calls \<open>next()\<close> exactly when the other
  parameters pass their checks and limit and offset are each absent or within these rules,
  and then leaves these values as limit and offset of the request; the handler queries with
  the integers they denote. In every other case, so for a present limit or offset outside
  the rules, the middleware answers 400 with the message "Invalid query parameter format",
  and the route answers just that: the handler, and with it the query, is not run.
\<close>

theorem limit_and_offset_validated:
  "validateLimit None = Some (Fin 10)
   \<and> validateLimit (Some x) =
        (if \<exists>k::int. 1 \<le> k \<and> k \<le> 100 \<and> Number x = Fin (of_int k)
         then Some (Number x) else None)
   \<and> validateOffset None = Some (Fin 0)
   \<and> validateOffset (Some x) =
        (if \<exists>k::int. 0 \<le> k \<and> Number x = Fin (of_int k) then Some (Number x) else None)
   \<and> validatePaperQueryParams q =
        (if (\<forall>y. q_year q = Some y \<longrightarrow> isIntegerGreaterThan1900 (Number y))
            \<and> (\<forall>p. q_publishedIn q = Some p \<longrightarrow> isNonEmptyStringWithoutTrim (q_string p))
            \<and> (\<forall>a. q_author q = Some a \<longrightarrow> author_param_ok a)
            \<and> (\<forall>x. q_limit q = Some x \<longrightarrow>
                  (\<exists>k::int. 1 \<le> k \<and> k \<le> 100 \<and> Number x = Fin (of_int k)))
            \<and> (\<forall>x. q_offset q = Some x \<longrightarrow> (\<exists>k::int. 0 \<le> k \<and> Number x = Fin (of_int k)))
         then Next \<lparr>v_year = map_option Number (q_year q),
                    v_publishedIn = q_publishedIn q, v_author = q_author q,
                    v_limit = (case q_limit q of None \<Rightarrow> Fin 10 | Some x \<Rightarrow> Number x),
                    v_offset = (case q_offset q of None \<Rightarrow> Fin 0 | Some x \<Rightarrow> Number x)\<rparr>
         else Respond 400 ''Validation Error'' ''Invalid query parameter format'')
   \<and> validateAuthorQueryParams aq =
        (if (\<forall>n. aq_name aq = Some n \<longrightarrow> isNonEmptyStringAfterTrim (q_string n))
            \<and> (\<forall>a. aq_affiliation aq = Some a \<longrightarrow> isNonEmptyStringAfterTrim (q_string a))
            \<and> (\<forall>x. aq_limit aq = Some x \<longrightarrow>
                  (\<exists>k::int. 1 \<le> k \<and> k \<le> 100 \<and> Number x = Fin (of_int k)))
            \<and> (\<forall>x. aq_offset aq = Some x \<longrightarrow> (\<exists>k::int. 0 \<le> k \<and> Number x = Fin (of_int k)))
         then Next \<lparr>av_name = aq_name aq, av_affiliation = aq_affiliation aq,
                    av_limit = (case aq_limit aq of None \<Rightarrow> Fin 10 | Some x \<Rightarrow> Number x),
                    av_offset = (case aq_offset aq of None \<Rightarrow> Fin 0 | Some x \<Rightarrow> Number x)\<rparr>
         else Respond 400 ''Validation Error'' ''Invalid query parameter format'')
   \<and> get_papers lower s q =
        (case validatePaperQueryParams q of
           Respond status err message \<Rightarrow> Respond status err message
         | Next r \<Rightarrow>
             (case getAllPapers lower s (paper_filters_of r) of
                Inl e \<Rightarrow> Respond 500 ''Internal Server Error'' ''An unexpected error occurred''
              | Inr page \<Rightarrow> Next page))
   \<and> get_authors lower s aq =
        (case validateAuthorQueryParams aq of
           Respond status err message \<Rightarrow> Respond status err message
         | Next r \<Rightarrow>
             (case getAllAuthors lower s (author_filters_of r) of
                Inl e \<Rightarrow> Respond 500 ''Internal Server Error'' ''An unexpected error occurred''
              | Inr page \<Rightarrow> Next page))
   \<and> f_limit (paper_filters_of r) = nat (integer_of (v_limit r))
   \<and> f_offset (paper_filters_of r) = nat (integer_of (v_offset r))
   \<and> af_limit (author_filters_of ar) = nat (integer_of (av_limit ar))
   \<and> af_offset (author_filters_of ar) = nat (integer_of (av_offset ar))
   \<and> integer_of (Fin (of_int k)) = k"
proof -
  have a: "validateLimit None = Some (Fin 10)"
    by (simp add: validateLimit_def)
  have b: "validateOffset None = Some (Fin 0)"
    by (simp add: validateOffset_def)
  show ?thesis
    by (intro conjI)
      (rule a b validateLimit_present validateOffset_present validatePaperQueryParams_eq
        validateAuthorQueryParams_eq get_papers_eq get_authors_eq filters_of_validated)+
qed

lemma number_of_digits:
  assumes "s \<noteq> []" and "list_all (is_digit 10) s" and "radix_value 10 s < 2 ^ 53"
  shows "Number (QString s) = Fin (of_int (radix_value 10 s))"
  using StringToNumber_digits_exact [OF assms] by (simp add: Number_def)

lemma number_2: "Number (QString ''2'') = Fin 2"
  using number_of_digits [of "''2''"] by (simp add: digit_simps)

lemma number_1: "Number (QString ''1'') = Fin 1"
  using number_of_digits [of "''1''"] by (simp add: digit_simps)

lemma number_101: "Number (QString ''101'') = Fin 101"
  using number_of_digits [of "''101''"] by (simp add: digit_simps)

lemma number_minus_1: "Number (QString ''-1'') = Fin (- 1)"
  by (simp add: Number_def id_minus_1)

lemma limit_2: "\<exists>k::int. 1 \<le> k \<and> k \<le> 100 \<and> Number (QString ''2'') = Fin (of_int k)"
  unfolding number_2 by (intro exI [of _ 2]) simp

lemma offset_1: "\<exists>k::int. 0 \<le> k \<and> Number (QString ''1'') = Fin (of_int k)"
  unfolding number_1 by (intro exI [of _ 1]) simp

lemma limit_101: "\<not> (\<exists>k::int. 1 \<le> k \<and> k \<le> 100 \<and> Number (QString ''101'') = Fin (of_int k))"
  by (simp add: number_101)

lemma offset_minus_1: "\<not> (\<exists>k::int. 0 \<le> k \<and> Number (QString ''-1'') = Fin (of_int k))"
proof
  assume "\<exists>k::int. 0 \<le> k \<and> Number (QString ''-1'') = Fin (of_int k)"
  then obtain k :: int where k: "0 \<le> k" and "Fin (- 1) = Fin (of_int k)"
    unfolding number_minus_1 by (elim exE conjE)
  then have eq: "(- 1 :: rat) = of_int k"
    by (simp only: jsnum.inject)
  from k have "(0 :: rat) \<le> of_int k"
    by (simp only: of_int_0_le_iff)
  with eq show False
    by linarith
qed

lemma getAllPapers_second_page:
  "getAllPapers lower_char store_three second_page =
     Inr \<lparr>pp_papers = map (\<lambda>p. (p, authors_of store_three (p_id p))) [paper2, paper3],
          pp_total = 2, pp_limit = 2, pp_offset = 1\<rparr>"
proof -
  have lim: "f_limit second_page = 2" and off: "f_offset second_page = 1"
    and year: "f_year second_page = None"
    by (simp_all add: second_page_def)
  have "getAllPapers lower_char store_three second_page =
     Inr \<lparr>pp_papers =
            map (\<lambda>p. (p, authors_of store_three (p_id p)))
              (take (f_limit second_page)
                 (drop (f_offset second_page mod 2 ^ 32)
                    (matching_papers lower_char store_three second_page))),
          pp_total =
            min (f_limit second_page)
              (length (matching_papers lower_char store_three second_page)
                 - f_offset second_page mod 2 ^ 32),
          pp_limit = f_limit second_page, pp_offset = f_offset second_page\<rparr>"
    by (rule getAllPapers_validated) (simp_all add: lim off year year_fits_def)
  then show ?thesis
    by (simp add: matching_second_page lim off)
qed

lemma getAllAuthors_second_page:
  "\<exists>page. getAllAuthors lower_char store_three authors_second_page = Inr page
     \<and> map (a_id \<circ> fst) (ap_authors page) = [2, 3]
     \<and> ap_total page = 2 \<and> ap_limit page = 2 \<and> ap_offset page = 1"
proof -
  have lim: "af_limit authors_second_page = 2" and off: "af_offset authors_second_page = 1"
    by (simp_all add: authors_second_page_def)
  define page where "page =
    \<lparr>ap_authors =
       map (\<lambda>a. (a, papers_of store_three (a_id a)))
         (take (af_limit authors_second_page)
            (drop (af_offset authors_second_page mod 2 ^ 32)
               (matching_authors lower_char store_three authors_second_page))),
     ap_total =
       min (af_limit authors_second_page)
         (length (matching_authors lower_char store_three authors_second_page)
            - af_offset authors_second_page mod 2 ^ 32),
     ap_limit = af_limit authors_second_page, ap_offset = af_offset authors_second_page\<rparr>"
  have g: "getAllAuthors lower_char store_three authors_second_page = Inr page"
    unfolding page_def by (rule getAllAuthors_validated) (simp_all add: lim off)
  have len: "length (matching_authors lower_char store_three authors_second_page) = 5"
    using arg_cong [OF matching_authors_second_page [of lower_char], of length] by simp
  have "map a_id (take 2 (drop 1 (matching_authors lower_char store_three authors_second_page)))
      = [2, 3]"
    by (simp add: matching_authors_second_page take_map [symmetric] drop_map [symmetric])
  then have ids: "map (a_id \<circ> fst) (ap_authors page) = [2, 3]"
    by (simp add: page_def lim off comp_def)
  have rest: "ap_total page = 2" "ap_limit page = 2" "ap_offset page = 1"
    by (simp_all add: page_def lim off len)
  show ?thesis
    by (intro exI [of _ page] conjI) (rule g ids rest)+
qed

theorem limit_and_offset_validated_witness:
  "validatePaperQueryParams query_second_page
     = Next \<lparr>v_year = None, v_publishedIn = None, v_author = None,
             v_limit = Fin 2, v_offset = Fin 1\<rparr>
   \<and> get_papers lower_char store_three query_second_page
     = Next \<lparr>pp_papers = map (\<lambda>p. (p, authors_of store_three (p_id p))) [paper2, paper3],
             pp_total = 2, pp_limit = 2, pp_offset = 1\<rparr>
   \<and> validatePaperQueryParams query_limit_101
     = Respond 400 ''Validation Error'' ''Invalid query parameter format''
   \<and> get_papers lower_char store_three query_limit_101
     = Respond 400 ''Validation Error'' ''Invalid query parameter format''
   \<and> validateAuthorQueryParams query_authors_second_page
     = Next \<lparr>av_name = None, av_affiliation = None, av_limit = Fin 2, av_offset = Fin 1\<rparr>
   \<and> (\<exists>page. get_authors lower_char store_three query_authors_second_page = Next page
         \<and> map (a_id \<circ> fst) (ap_authors page) = [2, 3]
         \<and> ap_total page = 2 \<and> ap_limit page = 2 \<and> ap_offset page = 1)
   \<and> validateAuthorQueryParams query_no_parameters
     = Next \<lparr>av_name = None, av_affiliation = None, av_limit = Fin 10, av_offset = Fin 0\<rparr>
   \<and> validateAuthorQueryParams query_offset_minus_1
     = Respond 400 ''Validation Error'' ''Invalid query parameter format''
   \<and> get_authors lower_char store_three query_offset_minus_1
     = Respond 400 ''Validation Error'' ''Invalid query parameter format''"
proof -
  let ?r = "\<lparr>v_year = None, v_publishedIn = None, v_author = None,
             v_limit = Fin 2, v_offset = Fin 1\<rparr>"
  let ?ar = "\<lparr>av_name = None, av_affiliation = None, av_limit = Fin 2, av_offset = Fin 1\<rparr>"
  let ?bad = "Respond 400 ''Validation Error'' ''Invalid query parameter format''"
  note page2 = limit_and_offset_validated
    [of "QString ''2''" query_second_page query_authors_second_page lower_char store_three
      ?r ?ar 2]
  note over = limit_and_offset_validated
    [of "QString ''101''" query_limit_101 query_offset_minus_1 lower_char store_three
      ?r ?ar 2]
  note none = limit_and_offset_validated
    [of "QString ''2''" query_second_page query_no_parameters lower_char store_three
      ?r ?ar 2]

  have c1: "(\<forall>y. q_year query_second_page = Some y \<longrightarrow> isIntegerGreaterThan1900 (Number y))
      \<and> (\<forall>p. q_publishedIn query_second_page = Some p \<longrightarrow>
            isNonEmptyStringWithoutTrim (q_string p))
      \<and> (\<forall>a. q_author query_second_page = Some a \<longrightarrow> author_param_ok a)
      \<and> (\<forall>x. q_limit query_second_page = Some x \<longrightarrow>
            (\<exists>k::int. 1 \<le> k \<and> k \<le> 100 \<and> Number x = Fin (of_int k)))
      \<and> (\<forall>x. q_offset query_second_page = Some x \<longrightarrow>
            (\<exists>k::int. 0 \<le> k \<and> Number x = Fin (of_int k)))"
    using limit_2 offset_1 by (simp add: query_second_page_def)
  have "validatePaperQueryParams query_second_page =
        (if (\<forall>y. q_year query_second_page = Some y \<longrightarrow> isIntegerGreaterThan1900 (Number y))
            \<and> (\<forall>p. q_publishedIn query_second_page = Some p \<longrightarrow>
                  isNonEmptyStringWithoutTrim (q_string p))
            \<and> (\<forall>a. q_author query_second_page = Some a \<longrightarrow> author_param_ok a)
            \<and> (\<forall>x. q_limit query_second_page = Some x \<longrightarrow>
                  (\<exists>k::int. 1 \<le> k \<and> k \<le> 100 \<and> Number x = Fin (of_int k)))
            \<and> (\<forall>x. q_offset query_second_page = Some x \<longrightarrow>
                  (\<exists>k::int. 0 \<le> k \<and> Number x = Fin (of_int k)))
         then Next \<lparr>v_year = map_option Number (q_year query_second_page),
                    v_publishedIn = q_publishedIn query_second_page,
                    v_author = q_author query_second_page,
                    v_limit = (case q_limit query_second_page of
                                 None \<Rightarrow> Fin 10 | Some x \<Rightarrow> Number x),
                    v_offset = (case q_offset query_second_page of
                                  None \<Rightarrow> Fin 0 | Some x \<Rightarrow> Number x)\<rparr>
         else ?bad)"
    using page2 by (elim conjE) assumption
  then have v1: "validatePaperQueryParams query_second_page = Next ?r"
    unfolding if_P [OF c1] by (simp add: query_second_page_def number_2 number_1)

  have "get_papers lower_char store_three query_second_page =
        (case validatePaperQueryParams query_second_page of
           Respond status err message \<Rightarrow> Respond status err message
         | Next r \<Rightarrow>
             (case getAllPapers lower_char store_three (paper_filters_of r) of
                Inl e \<Rightarrow> Respond 500 ''Internal Server Error'' ''An unexpected error occurred''
              | Inr page \<Rightarrow> Next page))"
    using page2 by (elim conjE) assumption
  moreover have "paper_filters_of ?r = second_page"
    by (simp add: paper_filters_of_def second_page_def string_filter_of_def)
  ultimately have g1: "get_papers lower_char store_three query_second_page
      = Next \<lparr>pp_papers = map (\<lambda>p. (p, authors_of store_three (p_id p))) [paper2, paper3],
              pp_total = 2, pp_limit = 2, pp_offset = 1\<rparr>"
    unfolding v1 by (simp add: getAllPapers_second_page)

  have c2: "\<not> ((\<forall>y. q_year query_limit_101 = Some y \<longrightarrow> isIntegerGreaterThan1900 (Number y))
      \<and> (\<forall>p. q_publishedIn query_limit_101 = Some p \<longrightarrow>
            isNonEmptyStringWithoutTrim (q_string p))
      \<and> (\<forall>a. q_author query_limit_101 = Some a \<longrightarrow> author_param_ok a)
      \<and> (\<forall>x. q_limit query_limit_101 = Some x \<longrightarrow>
            (\<exists>k::int. 1 \<le> k \<and> k \<le> 100 \<and> Number x = Fin (of_int k)))
      \<and> (\<forall>x. q_offset query_limit_101 = Some x \<longrightarrow>
            (\<exists>k::int. 0 \<le> k \<and> Number x = Fin (of_int k))))"
    using limit_101 by (simp add: query_limit_101_def)
  have "validatePaperQueryParams query_limit_101 =
        (if (\<forall>y. q_year query_limit_101 = Some y \<longrightarrow> isIntegerGreaterThan1900 (Number y))
            \<and> (\<forall>p. q_publishedIn query_limit_101 = Some p \<longrightarrow>
                  isNonEmptyStringWithoutTrim (q_string p))
            \<and> (\<forall>a. q_author query_limit_101 = Some a \<longrightarrow> author_param_ok a)
            \<and> (\<forall>x. q_limit query_limit_101 = Some x \<longrightarrow>
                  (\<exists>k::int. 1 \<le> k \<and> k \<le> 100 \<and> Number x = Fin (of_int k)))
            \<and> (\<forall>x. q_offset query_limit_101 = Some x \<longrightarrow>
                  (\<exists>k::int. 0 \<le> k \<and> Number x = Fin (of_int k)))
         then Next \<lparr>v_year = map_option Number (q_year query_limit_101),
                    v_publishedIn = q_publishedIn query_limit_101,
                    v_author = q_author query_limit_101,
                    v_limit = (case q_limit query_limit_101 of
                                 None \<Rightarrow> Fin 10 | Some x \<Rightarrow> Number x),
                    v_offset = (case q_offset query_limit_101 of
                                  None \<Rightarrow> Fin 0 | Some x \<Rightarrow> Number x)\<rparr>
         else ?bad)"
    using over by (elim conjE) assumption
  then have v2: "validatePaperQueryParams query_limit_101 = ?bad"
    unfolding if_not_P [OF c2] .
  have "get_papers lower_char store_three query_limit_101 =
        (case validatePaperQueryParams query_limit_101 of
           Respond status err message \<Rightarrow> Respond status err message
         | Next r \<Rightarrow>
             (case getAllPapers lower_char store_three (paper_filters_of r) of
                Inl e \<Rightarrow> Respond 500 ''Internal Server Error'' ''An unexpected error occurred''
              | Inr page \<Rightarrow> Next page))"
    using over by (elim conjE) assumption
  then have g2: "get_papers lower_char store_three query_limit_101 = ?bad"
    unfolding v2 by simp

  have c3: "(\<forall>n. aq_name query_authors_second_page = Some n \<longrightarrow>
            isNonEmptyStringAfterTrim (q_string n))
      \<and> (\<forall>a. aq_affiliation query_authors_second_page = Some a \<longrightarrow>
            isNonEmptyStringAfterTrim (q_string a))
      \<and> (\<forall>x. aq_limit query_authors_second_page = Some x \<longrightarrow>
            (\<exists>k::int. 1 \<le> k \<and> k \<le> 100 \<and> Number x = Fin (of_int k)))
      \<and> (\<forall>x. aq_offset query_authors_second_page = Some x \<longrightarrow>
            (\<exists>k::int. 0 \<le> k \<and> Number x = Fin (of_int k)))"
    using limit_2 offset_1 by (simp add: query_authors_second_page_def)
  have "validateAuthorQueryParams query_authors_second_page =
        (if (\<forall>n. aq_name query_authors_second_page = Some n \<longrightarrow>
               isNonEmptyStringAfterTrim (q_string n))
            \<and> (\<forall>a. aq_affiliation query_authors_second_page = Some a \<longrightarrow>
                  isNonEmptyStringAfterTrim (q_string a))
            \<and> (\<forall>x. aq_limit query_authors_second_page = Some x \<longrightarrow>
                  (\<exists>k::int. 1 \<le> k \<and> k \<le> 100 \<and> Number x = Fin (of_int k)))
            \<and> (\<forall>x. aq_offset query_authors_second_page = Some x \<longrightarrow>
                  (\<exists>k::int. 0 \<le> k \<and> Number x = Fin (of_int k)))
         then Next \<lparr>av_name = aq_name query_authors_second_page,
                    av_affiliation = aq_affiliation query_authors_second_page,
                    av_limit = (case aq_limit query_authors_second_page of
                                  None \<Rightarrow> Fin 10 | Some x \<Rightarrow> Number x),
                    av_offset = (case aq_offset query_authors_second_page of
                                   None \<Rightarrow> Fin 0 | Some x \<Rightarrow> Number x)\<rparr>
         else ?bad)"
    using page2 by (elim conjE) assumption
  then have v3: "validateAuthorQueryParams query_authors_second_page = Next ?ar"
    unfolding if_P [OF c3] by (simp add: query_authors_second_page_def number_2 number_1)
  have "get_authors lower_char store_three query_authors_second_page =
        (case validateAuthorQueryParams query_authors_second_page of
           Respond status err message \<Rightarrow> Respond status err message
         | Next r \<Rightarrow>
             (case getAllAuthors lower_char store_three (author_filters_of r) of
                Inl e \<Rightarrow> Respond 500 ''Internal Server Error'' ''An unexpected error occurred''
              | Inr page \<Rightarrow> Next page))"
    using page2 by (elim conjE) assumption
  moreover have fa: "author_filters_of ?ar = authors_second_page"
    by (simp add: author_filters_of_def authors_second_page_def string_filter_of_def)
  ultimately have ga: "get_authors lower_char store_three query_authors_second_page =
        (case getAllAuthors lower_char store_three authors_second_page of
           Inl e \<Rightarrow> Respond 500 ''Internal Server Error'' ''An unexpected error occurred''
         | Inr page \<Rightarrow> Next page)"
    unfolding v3 by simp
  have g3: "\<exists>page. get_authors lower_char store_three query_authors_second_page = Next page
         \<and> map (a_id \<circ> fst) (ap_authors page) = [2, 3]
         \<and> ap_total page = 2 \<and> ap_limit page = 2 \<and> ap_offset page = 1"
    using getAllAuthors_second_page
  proof (elim exE conjE)
    fix page
    assume p: "getAllAuthors lower_char store_three authors_second_page = Inr page"
      and rest: "map (a_id \<circ> fst) (ap_authors page) = [2, 3]"
        "ap_total page = 2" "ap_limit page = 2" "ap_offset page = 1"
    have "get_authors lower_char store_three query_authors_second_page = Next page"
      unfolding ga p by simp
    then show ?thesis
      by (intro exI [of _ page] conjI) (rule rest | assumption)+
  qed

  have c4: "(\<forall>n. aq_name query_no_parameters = Some n \<longrightarrow>
            isNonEmptyStringAfterTrim (q_string n))
      \<and> (\<forall>a. aq_affiliation query_no_parameters = Some a \<longrightarrow>
            isNonEmptyStringAfterTrim (q_string a))
      \<and> (\<forall>x. aq_limit query_no_parameters = Some x \<longrightarrow>
            (\<exists>k::int. 1 \<le> k \<and> k \<le> 100 \<and> Number x = Fin (of_int k)))
      \<and> (\<forall>x. aq_offset query_no_parameters = Some x \<longrightarrow>
            (\<exists>k::int. 0 \<le> k \<and> Number x = Fin (of_int k)))"
    by (simp add: query_no_parameters_def)
  have "validateAuthorQueryParams query_no_parameters =
        (if (\<forall>n. aq_name query_no_parameters = Some n \<longrightarrow>
               isNonEmptyStringAfterTrim (q_string n))
            \<and> (\<forall>a. aq_affiliation query_no_parameters = Some a \<longrightarrow>
                  isNonEmptyStringAfterTrim (q_string a))
            \<and> (\<forall>x. aq_limit query_no_parameters = Some x \<longrightarrow>
                  (\<exists>k::int. 1 \<le> k \<and> k \<le> 100 \<and> Number x = Fin (of_int k)))
            \<and> (\<forall>x. aq_offset query_no_parameters = Some x \<longrightarrow>
                  (\<exists>k::int. 0 \<le> k \<and> Number x = Fin (of_int k)))
         then Next \<lparr>av_name = aq_name query_no_parameters,
                    av_affiliation = aq_affiliation query_no_parameters,
                    av_limit = (case aq_limit query_no_parameters of
                                  None \<Rightarrow> Fin 10 | Some x \<Rightarrow> Number x),
                    av_offset = (case aq_offset query_no_parameters of
                                   None \<Rightarrow> Fin 0 | Some x \<Rightarrow> Number x)\<rparr>
         else ?bad)"
    using none by (elim conjE) assumption
  then have v4: "validateAuthorQueryParams query_no_parameters
      = Next \<lparr>av_name = None, av_affiliation = None, av_limit = Fin 10, av_offset = Fin 0\<rparr>"
    unfolding if_P [OF c4] by (simp add: query_no_parameters_def)

  have c5: "\<not> ((\<forall>n. aq_name query_offset_minus_1 = Some n \<longrightarrow>
            isNonEmptyStringAfterTrim (q_string n))
      \<and> (\<forall>a. aq_affiliation query_offset_minus_1 = Some a \<longrightarrow>
            isNonEmptyStringAfterTrim (q_string a))
      \<and> (\<forall>x. aq_limit query_offset_minus_1 = Some x \<longrightarrow>
            (\<exists>k::int. 1 \<le> k \<and> k \<le> 100 \<and> Number x = Fin (of_int k)))
      \<and> (\<forall>x. aq_offset query_offset_minus_1 = Some x \<longrightarrow>
            (\<exists>k::int. 0 \<le> k \<and> Number x = Fin (of_int k))))"
    using offset_minus_1 by (simp add: query_offset_minus_1_def)
  have "validateAuthorQueryParams query_offset_minus_1 =
        (if (\<forall>n. aq_name query_offset_minus_1 = Some n \<longrightarrow>
               isNonEmptyStringAfterTrim (q_string n))
            \<and> (\<forall>a. aq_affiliation query_offset_minus_1 = Some a \<longrightarrow>
                  isNonEmptyStringAfterTrim (q_string a))
            \<and> (\<forall>x. aq_limit query_offset_minus_1 = Some x \<longrightarrow>
                  (\<exists>k::int. 1 \<le> k \<and> k \<le> 100 \<and> Number x = Fin (of_int k)))
            \<and> (\<forall>x. aq_offset query_offset_minus_1 = Some x \<longrightarrow>
                  (\<exists>k::int. 0 \<le> k \<and> Number x = Fin (of_int k)))
         then Next \<lparr>av_name = aq_name query_offset_minus_1,
                    av_affiliation = aq_affiliation query_offset_minus_1,
                    av_limit = (case aq_limit query_offset_minus_1 of
                                  None \<Rightarrow> Fin 10 | Some x \<Rightarrow> Number x),
                    av_offset = (case aq_offset query_offset_minus_1 of
                                   None \<Rightarrow> Fin 0 | Some x \<Rightarrow> Number x)\<rparr>
         else ?bad)"
    using over by (elim conjE) assumption
  then have v5: "validateAuthorQueryParams query_offset_minus_1 = ?bad"
    unfolding if_not_P [OF c5] .
  have "get_authors lower_char store_three query_offset_minus_1 =
        (case validateAuthorQueryParams query_offset_minus_1 of
           Respond status err message \<Rightarrow> Respond status err message
         | Next r \<Rightarrow>
             (case getAllAuthors lower_char store_three (author_filters_of r) of
                Inl e \<Rightarrow> Respond 500 ''Internal Server Error'' ''An unexpected error occurred''
              | Inr page \<Rightarrow> Next page))"
    using over by (elim conjE) assumption
  then have g5: "get_authors lower_char store_three query_offset_minus_1 = ?bad"
    unfolding v5 by simp

  show ?thesis
    by (intro conjI) (rule v1 g1 v2 g2 v3 g3 v4 v5 g5)+
qed

section \<open>The path parameter \<open>id\<close>\<close>

lemma validateResourceId_iff:
  "validateResourceId ident =
     (if \<exists>k::int. 0 < k \<and> StringToNumber ident = Fin (of_int k)
      then Next (StringToNumber ident)
      else Respond 400 ''Validation Error'' ''Invalid ID format'')"
  unfolding isIntegerGreaterThan0_iff [symmetric]
  by (simp add: validateResourceId_def respondWithValidationError_def id_error_def)

lemma validateResourceId_Fin:
  assumes "StringToNumber ident = Fin (of_int k)"
  shows "validateResourceId ident =
     (if 0 < k then Next (Fin (of_int k))
      else Respond 400 ''Validation Error'' ''Invalid ID format'')"
  unfolding validateResourceId_iff assms by simp

lemma validateResourceId_digits:
  assumes "ident \<noteq> []" and "list_all (is_digit 10) ident" and "radix_value 10 ident < 2 ^ 53"
  shows "validateResourceId ident =
     (if 0 < radix_value 10 ident then Next (Fin (of_int (radix_value 10 ident)))
      else Respond 400 ''Validation Error'' ''Invalid ID format'')"
  by (rule validateResourceId_Fin) (rule StringToNumber_digits_exact [OF assms])

lemma validateResourceId_digit_string:
  assumes "ident \<noteq> []" and "list_all (is_digit 10) ident"
  shows "(\<exists>v. validateResourceId ident = Next v)
     \<longleftrightarrow> 0 < radix_value 10 ident \<and> radix_value 10 ident < 2 ^ 1024 - 2 ^ 970"
proof -
  define n where "n = radix_value 10 ident"
  have s: "StringToNumber ident = toDouble (of_int n)"
    unfolding n_def by (rule StringToNumber_digits [OF assms])
  have n0: "0 \<le> n"
    unfolding n_def by (rule radix_value_nonneg)
  consider "n = 0" | "0 < n" "n < 2 ^ 1024 - 2 ^ 970" | "2 ^ 1024 - 2 ^ 970 \<le> n"
    using n0 by linarith
  then have "(\<exists>v. validateResourceId ident = Next v) \<longleftrightarrow> 0 < n \<and> n < 2 ^ 1024 - 2 ^ 970"
  proof cases
    case 1
    then have "StringToNumber ident = Fin (of_int 0)"
      by (simp add: s toDouble_def)
    from validateResourceId_Fin [OF this] 1 show ?thesis
      by simp
  next
    case 2
    then obtain k where k: "0 < k" "toDouble (of_int n) = Fin (of_int k)"
      using toDouble_pos_int by blast
    then have "StringToNumber ident = Fin (of_int k)"
      by (simp add: s)
    from validateResourceId_Fin [OF this] k(1) 2 show ?thesis
      by simp
  next
    case 3
    then have "StringToNumber ident = PosInf"
      unfolding s by (rule toDouble_nat_overflow)
    then have "validateResourceId ident = Respond 400 ''Validation Error'' ''Invalid ID format''"
      by (simp add: validateResourceId_iff)
    with 3 show ?thesis
      by simp
  qed
  then show ?thesis
    by (simp only: n_def)
qed

lemma id_3_14:
  "validateResourceId ''3.14'' = Respond 400 ''Validation Error'' ''Invalid ID format''"
  by code_simp

lemma rejected_ids:
  "validateResourceId ''0'' = Respond 400 ''Validation Error'' ''Invalid ID format''"
  "validateResourceId ''-1'' = Respond 400 ''Validation Error'' ''Invalid ID format''"
  "validateResourceId ''1aaa'' = Respond 400 ''Validation Error'' ''Invalid ID format''"
  using validateResourceId_Fin [of "''0''" 0] validateResourceId_Fin [of "''-1''" "- 1"]
  by (simp_all add: id_0 id_minus_1 validateResourceId_iff id_1aaa)

lemma accepted_ids:
  "validateResourceId ''1'' = Next (Fin 1)"
  "validateResourceId '' 1'' = Next (Fin 1)"
  "validateResourceId ''+1'' = Next (Fin 1)"
  "validateResourceId ''1.0'' = Next (Fin 1)"
  "validateResourceId ''1e2'' = Next (Fin 100)"
  "validateResourceId ''0x10'' = Next (Fin 16)"
  using validateResourceId_Fin [of "''1''" 1] validateResourceId_Fin [of "'' 1''" 1]
    validateResourceId_Fin [of "''+1''" 1] validateResourceId_Fin [of "''1.0''" 1]
    validateResourceId_Fin [of "''1e2''" 100] validateResourceId_Fin [of "''0x10''" 16]
  by (simp_all add: id_1 id_space_1 id_plus_1 id_1_point_0 id_1e2 id_0x10)

text \<open>
  Claim C5, as amended. For every path parameter \<open>id\<close>, the request proceeds if and only
  if \<open>Number(id)\<close> is an integer greater than 0, and is otherwise answered with status 400
  and the message "Invalid ID format". A non-empty string of decimal digits proceeds if and
  only if its value is positive and below \<open>2\<^sup>1\<^sup>0\<^sup>2\<^sup>4 - 2\<^sup>9\<^sup>7\<^sup>0\<close>, from where on \<open>Number\<close>
  yields \<open>Infinity\<close>; when the value is below \<open>2\<^sup>5\<^sup>3\<close>, it is the identifier that the
  request proceeds with. \<open>0\<close>, \<open>-1\<close>, \<open>3.14\<close> and \<open>1aaa\<close> are rejected and \<open>1\<close> proceeds.
\<close>

theorem resource_id_is_a_positive_integer:
  "validateResourceId ident =
     (if \<exists>k::int. 0 < k \<and> StringToNumber ident = Fin (of_int k)
      then Next (StringToNumber ident)
      else Respond 400 ''Validation Error'' ''Invalid ID format'')
   \<and> (ident \<noteq> [] \<and> list_all (is_digit 10) ident \<longrightarrow>
        ((\<exists>v. validateResourceId ident = Next v)
           \<longleftrightarrow> 0 < radix_value 10 ident \<and> radix_value 10 ident < 2 ^ 1024 - 2 ^ 970))
   \<and> (ident \<noteq> [] \<and> list_all (is_digit 10) ident
        \<and> 0 < radix_value 10 ident \<and> radix_value 10 ident < 2 ^ 53 \<longrightarrow>
        validateResourceId ident = Next (Fin (of_int (radix_value 10 ident))))
   \<and> validateResourceId ''0'' = Respond 400 ''Validation Error'' ''Invalid ID format''
   \<and> validateResourceId ''-1'' = Respond 400 ''Validation Error'' ''Invalid ID format''
   \<and> validateResourceId ''3.14'' = Respond 400 ''Validation Error'' ''Invalid ID format''
   \<and> validateResourceId ''1aaa'' = Respond 400 ''Validation Error'' ''Invalid ID format''
   \<and> validateResourceId ''1'' = Next (Fin 1)"
proof -
  have digits: "ident \<noteq> [] \<and> list_all (is_digit 10) ident \<longrightarrow>
        ((\<exists>v. validateResourceId ident = Next v)
           \<longleftrightarrow> 0 < radix_value 10 ident \<and> radix_value 10 ident < 2 ^ 1024 - 2 ^ 970)"
    using validateResourceId_digit_string [of ident] by blast
  have pos: "ident \<noteq> [] \<and> list_all (is_digit 10) ident
        \<and> 0 < radix_value 10 ident \<and> radix_value 10 ident < 2 ^ 53 \<longrightarrow>
        validateResourceId ident = Next (Fin (of_int (radix_value 10 ident)))"
    using validateResourceId_digits [of ident] by simp
  show ?thesis
    by (intro conjI)
      (rule validateResourceId_iff digits pos rejected_ids id_3_14 accepted_ids(1))+
qed

theorem resource_id_is_a_positive_integer_witness:
  "''42'' \<noteq> [] \<and> list_all (is_digit 10) ''42''
   \<and> 0 < radix_value 10 ''42'' \<and> radix_value 10 ''42'' < 2 ^ 53
   \<and> validateResourceId ''42'' = Next (Fin 42)
   \<and> list_all (is_digit 10) ''00'' \<and> radix_value 10 ''00'' = 0
   \<and> \<not> (\<exists>v. validateResourceId ''00'' = Next v)"
proof -
  have d: "''42'' \<noteq> []" "list_all (is_digit 10) ''42''"
    "0 < radix_value 10 ''42''" "radix_value 10 ''42'' < 2 ^ 53"
    by (simp_all add: digit_simps)
  have v: "radix_value 10 ''42'' = 42"
    by (simp add: digit_simps)
  have z: "''00'' \<noteq> []" "list_all (is_digit 10) ''00''" "radix_value 10 ''00'' = 0"
    by (simp_all add: digit_simps)
  have "''42'' \<noteq> [] \<and> list_all (is_digit 10) ''42''
        \<and> 0 < radix_value 10 ''42'' \<and> radix_value 10 ''42'' < 2 ^ 53 \<longrightarrow>
        validateResourceId ''42'' = Next (Fin (of_int (radix_value 10 ''42'')))"
    using resource_id_is_a_positive_integer [of "''42''"] by (elim conjE) assumption
  with d have a: "validateResourceId ''42'' = Next (Fin 42)"
    unfolding v by simp
  have "''00'' \<noteq> [] \<and> list_all (is_digit 10) ''00'' \<longrightarrow>
        ((\<exists>v. validateResourceId ''00'' = Next v)
           \<longleftrightarrow> 0 < radix_value 10 ''00''
               \<and> radix_value 10 ''00'' < 2 ^ 1024 - 2 ^ 970)"
    using resource_id_is_a_positive_integer [of "''00''"] by (elim conjE) assumption
  with z have b: "\<not> (\<exists>v. validateResourceId ''00'' = Next v)"
    by simp
  show ?thesis
    by (intro conjI) (rule d z(2,3) a b)+
qed

text \<open>
  Claim C5 as stated fails: \<open>Number\<close> drops surrounding white space and reads a sign, a
  fraction of zeros, an exponent and a radix prefix, so identifiers with characters that
  are no digits proceed.
\<close>

theorem resource_id_accepts_more_than_digits:
  "validateResourceId '' 1'' = Next (Fin 1) \<and> \<not> list_all (is_digit 10) '' 1''
   \<and> validateResourceId ''+1'' = Next (Fin 1) \<and> \<not> list_all (is_digit 10) ''+1''
   \<and> validateResourceId ''1.0'' = Next (Fin 1) \<and> \<not> list_all (is_digit 10) ''1.0''
   \<and> validateResourceId ''1e2'' = Next (Fin 100) \<and> \<not> list_all (is_digit 10) ''1e2''
   \<and> validateResourceId ''0x10'' = Next (Fin 16) \<and> \<not> list_all (is_digit 10) ''0x10''"
proof -
  have "\<not> list_all (is_digit 10) '' 1''" "\<not> list_all (is_digit 10) ''+1''"
    "\<not> list_all (is_digit 10) ''1.0''" "\<not> list_all (is_digit 10) ''1e2''"
    "\<not> list_all (is_digit 10) ''0x10''"
    by (simp_all add: digit_simps)
  then show ?thesis
    using accepted_ids by simp
qed

end
